theory Spec2Isabelle
  imports Complex_Main "HOL-Library.Sublist"
begin

section \<open>Python and numpy values\<close>

text \<open>
  The technical analysis tool works on numpy float64 arrays. A float64 entry is a
  finite number, a zero of either sign, one of the two infinities or NaN. \<open>Fin x\<close> is
  the finite value \<open>x\<close>, with \<open>Fin 0\<close> the positive zero, and \<open>NZero\<close> the negative
  zero. The entries of an array are values of the format; an operation rounds its
  exact result to the nearest value of the format, a tie to the even significand.
\<close>

datatype npfloat = Fin real | NZero | PInf | NInf | NaN

fun np_neg :: "npfloat \<Rightarrow> npfloat" where
  "np_neg (Fin x) = (if x = 0 then NZero else Fin (- x))"
| "np_neg NZero = Fin 0"
| "np_neg PInf = NInf"
| "np_neg NInf = PInf"
| "np_neg NaN = NaN"

fun np_abs :: "npfloat \<Rightarrow> npfloat" where
  "np_abs (Fin x) = Fin \<bar>x\<bar>"
| "np_abs NZero = Fin 0"
| "np_abs PInf = PInf"
| "np_abs NInf = PInf"
| "np_abs NaN = NaN"

text \<open>
  Rounding to binary64: 53 significant bits, exponents from \<open>-1022\<close> to \<open>1023\<close>.
  \<open>bit_length n\<close> is the number of binary digits of \<open>n\<close>, \<open>ilog2 x\<close> the exponent
  \<open>e\<close> with \<open>2 ^ e \<le> x < 2 ^ (e + 1)\<close> of a positive \<open>x\<close>. A positive number is
  rounded to a multiple of the spacing \<open>2 ^ (e - 52)\<close> of the format at its
  exponent, which is \<open>-1022\<close> at least (the subnormal numbers); a result of \<open>2 ^ 1024\<close>
  or more overflows to infinity, a result of zero keeps the sign.
\<close>

fun bit_length :: "nat \<Rightarrow> nat" where
  "bit_length n = (if n = 0 then 0 else Suc (bit_length (n div 2)))"

declare bit_length.simps [simp del]

definition ilog2 :: "real \<Rightarrow> int" where
  "ilog2 x =
     (if 1 \<le> x then int (bit_length (nat \<lfloor>x\<rfloor>)) - 1
      else - int (bit_length (nat \<lceil>1 / x\<rceil> - 1)))"

definition pow2 :: "int \<Rightarrow> real" where
  "pow2 e = (if 0 \<le> e then 2 ^ nat e else 1 / 2 ^ nat (- e))"

definition round_even :: "real \<Rightarrow> int" where
  "round_even m =
     (let f = \<lfloor>m\<rfloor>; r = m - of_int f
      in if r < 1 / 2 then f else if 1 / 2 < r then f + 1
         else if even f then f else f + 1)"

definition round64_pos :: "real \<Rightarrow> npfloat" where
  "round64_pos x =
     (let e = max (ilog2 x) (- 1022);
          ulp = pow2 (e - 52);
          y = of_int (round_even (x / ulp)) * ulp
      in if pow2 1024 \<le> y then PInf else Fin y)"

definition round64 :: "real \<Rightarrow> npfloat" where
  "round64 x =
     (if x = 0 then Fin 0 else if 0 < x then round64_pos x
      else np_neg (round64_pos (- x)))"

text \<open>Subtraction: the difference of two equal finite values is the positive zero.\<close>

fun np_sub :: "npfloat \<Rightarrow> npfloat \<Rightarrow> npfloat" where
  "np_sub (Fin x) (Fin y) = round64 (x - y)"
| "np_sub (Fin x) NZero = Fin x"
| "np_sub NZero (Fin y) = (if y = 0 then NZero else Fin (- y))"
| "np_sub NZero NZero = Fin 0"
| "np_sub (Fin x) PInf = NInf"
| "np_sub (Fin x) NInf = PInf"
| "np_sub NZero PInf = NInf"
| "np_sub NZero NInf = PInf"
| "np_sub PInf (Fin y) = PInf"
| "np_sub PInf NZero = PInf"
| "np_sub PInf NInf = PInf"
| "np_sub PInf PInf = NaN"
| "np_sub NInf (Fin y) = NInf"
| "np_sub NInf NZero = NInf"
| "np_sub NInf PInf = NInf"
| "np_sub NInf NInf = NaN"
| "np_sub NaN b = NaN"
| "np_sub a NaN = NaN"

text \<open>
  Division of numpy scalars never raises: a zero divisor gives an infinity whose sign
  is the product of the signs, or NaN for \<open>0 / 0\<close>; a zero dividend gives a zero with
  the product of the signs.
\<close>

fun np_div :: "npfloat \<Rightarrow> npfloat \<Rightarrow> npfloat" where
  "np_div (Fin x) (Fin y) =
     (if y = 0 then (if x = 0 then NaN else if 0 < x then PInf else NInf)
      else if x = 0 then (if 0 < y then Fin 0 else NZero)
      else round64 (x / y))"
| "np_div (Fin x) NZero = (if x = 0 then NaN else if 0 < x then NInf else PInf)"
| "np_div NZero (Fin y) = (if y = 0 then NaN else if 0 < y then NZero else Fin 0)"
| "np_div NZero NZero = NaN"
| "np_div (Fin x) PInf = (if 0 \<le> x then Fin 0 else NZero)"
| "np_div (Fin x) NInf = (if 0 \<le> x then NZero else Fin 0)"
| "np_div NZero PInf = NZero"
| "np_div NZero NInf = Fin 0"
| "np_div PInf (Fin y) = (if 0 \<le> y then PInf else NInf)"
| "np_div PInf NZero = NInf"
| "np_div NInf (Fin y) = (if 0 \<le> y then NInf else PInf)"
| "np_div NInf NZero = PInf"
| "np_div PInf PInf = NaN"
| "np_div PInf NInf = NaN"
| "np_div NInf PInf = NaN"
| "np_div NInf NInf = NaN"
| "np_div NaN b = NaN"
| "np_div a NaN = NaN"

text \<open>Every comparison with NaN is false; the two zeros compare equal.\<close>

fun np_lt :: "npfloat \<Rightarrow> npfloat \<Rightarrow> bool" where
  "np_lt (Fin x) (Fin y) = (x < y)"
| "np_lt (Fin x) NZero = (x < 0)"
| "np_lt NZero (Fin y) = (0 < y)"
| "np_lt NZero NZero = False"
| "np_lt (Fin x) PInf = True"
| "np_lt NZero PInf = True"
| "np_lt (Fin x) NInf = False"
| "np_lt NZero NInf = False"
| "np_lt PInf b = False"
| "np_lt NInf (Fin y) = True"
| "np_lt NInf NZero = True"
| "np_lt NInf PInf = True"
| "np_lt NInf NInf = False"
| "np_lt a NaN = False"
| "np_lt NaN b = False"

definition np_gt :: "npfloat \<Rightarrow> npfloat \<Rightarrow> bool" where
  "np_gt a b = np_lt b a"

definition np_eq :: "npfloat \<Rightarrow> npfloat \<Rightarrow> bool" where
  "np_eq a b =
     (a \<noteq> NaN \<and> b \<noteq> NaN \<and> (a = b \<or> (a = NZero \<and> b = Fin 0) \<or> (a = Fin 0 \<and> b = NZero)))"

text \<open>
  The exceptions the tool distinguishes: \<open>IndexError\<close> has its own handler, every other
  subclass of \<open>Exception\<close> is handled by its message \<open>str(e)\<close>.
\<close>

datatype exn = IndexError | OtherException string

text \<open>
  Integer indexing of a list or a numpy array, \<open>xs[i]\<close>: a negative index counts from
  the end, an index out of range raises \<open>IndexError\<close>.
\<close>

definition getitem :: "'a list \<Rightarrow> int \<Rightarrow> exn + 'a" where
  "getitem xs i =
     (if 0 \<le> i then
        (if i < int (length xs) then Inr (xs ! nat i) else Inl IndexError)
      else
        (if - i \<le> int (length xs) then Inr (xs ! (length xs - nat (- i)))
         else Inl IndexError))"

text \<open>
  Sequencing of statements that may raise: the first exception ends the computation.
\<close>

fun bind_exn :: "exn + 'a \<Rightarrow> ('a \<Rightarrow> exn + 'b) \<Rightarrow> exn + 'b" where
  "bind_exn (Inl e) f = Inl e"
| "bind_exn (Inr x) f = f x"

section \<open>Chart patterns\<close>

text \<open>
  \<open>scipy.signal.find_peaks\<close> is a third-party routine: the pattern rules take it as the
  parameter \<open>find_peaks\<close>, applied to the array and the \<open>distance\<close> argument and returning
  the array of peak indices.
\<close>

type_synonym peak_finder = "npfloat list \<Rightarrow> nat \<Rightarrow> nat list"

definition is_head_and_shoulders :: "peak_finder \<Rightarrow> npfloat list \<Rightarrow> exn + bool" where
  "is_head_and_shoulders find_peaks close =
     (let peaks = find_peaks close 20 in
      if length peaks \<ge> 3 then
        bind_exn (getitem peaks (- 3)) (\<lambda>left_shoulder.
        bind_exn (getitem peaks (- 2)) (\<lambda>head.
        bind_exn (getitem peaks (- 1)) (\<lambda>right_shoulder.
        bind_exn (getitem close (int head)) (\<lambda>h1.
        bind_exn (getitem close (int left_shoulder)) (\<lambda>l.
        if np_gt h1 l then
          bind_exn (getitem close (int head)) (\<lambda>h2.
          bind_exn (getitem close (int right_shoulder)) (\<lambda>r.
          if np_gt h2 r then Inr True else Inr False))
        else Inr False)))))
      else Inr False)"

text \<open>
  The test shared by the two double patterns,
  \<open>abs(close[a] - close[b]) / close[b] < 0.03\<close> with \<open>a\<close> the last and \<open>b\<close> the
  last but one index. The literal \<open>0.03\<close> is the float64 nearest to 3/100.
\<close>

definition within_3_percent :: "npfloat list \<Rightarrow> nat list \<Rightarrow> exn + bool" where
  "within_3_percent close idx =
     bind_exn (getitem idx (- 1)) (\<lambda>i1.
     bind_exn (getitem close (int i1)) (\<lambda>c1.
     bind_exn (getitem idx (- 2)) (\<lambda>i2.
     bind_exn (getitem close (int i2)) (\<lambda>c2.
     bind_exn (getitem idx (- 2)) (\<lambda>i3.
     bind_exn (getitem close (int i3)) (\<lambda>c3.
     Inr (np_lt (np_div (np_abs (np_sub c1 c2)) c3) (round64 (3 / 100)))))))))"

definition is_double_top :: "peak_finder \<Rightarrow> npfloat list \<Rightarrow> exn + bool" where
  "is_double_top find_peaks close =
     (let peaks = find_peaks close 20 in
      if length peaks \<ge> 2 then
        bind_exn (within_3_percent close peaks) (\<lambda>b.
        if b then Inr True else Inr False)
      else Inr False)"

definition is_double_bottom :: "peak_finder \<Rightarrow> npfloat list \<Rightarrow> exn + bool" where
  "is_double_bottom find_peaks close =
     (let troughs = find_peaks (map np_neg close) 20 in
      if length troughs \<ge> 2 then
        bind_exn (within_3_percent close troughs) (\<lambda>b.
        if b then Inr True else Inr False)
      else Inr False)"

definition identify_chart_patterns :: "peak_finder \<Rightarrow> npfloat list \<Rightarrow> exn + string list" where
  "identify_chart_patterns find_peaks close =
     (let patterns = [] in
      bind_exn (is_head_and_shoulders find_peaks close) (\<lambda>hs.
      let patterns = (if hs then patterns @ [''Head and Shoulders''] else patterns) in
      bind_exn (is_double_top find_peaks close) (\<lambda>dt.
      let patterns = (if dt then patterns @ [''Double Top''] else patterns) in
      bind_exn (is_double_bottom find_peaks close) (\<lambda>db.
      let patterns = (if db then patterns @ [''Double Bottom''] else patterns) in
      Inr patterns))))"

section \<open>The analysis tool\<close>

text \<open>
  Python values that occur in pandas columns and in the dictionary the tool returns.
\<close>

datatype pyval = PyNone | PyStr string | PyFloat npfloat | PyList "pyval list"

type_synonym series = "pyval list"

type_synonym pydict = "(string \<times> pyval) list"

text \<open>
  The price history: the float64 columns of the frame that the tool reads. The number
  of rows of the frame is the length of its columns.
\<close>

record dataframe =
  Close :: "npfloat list"
  High :: "npfloat list"
  Low :: "npfloat list"

text \<open>The indicator columns the tool adds to the frame.\<close>

record indicators =
  SMA_50 :: series
  SMA_200 :: series
  RSI :: series
  MACD :: series
  MACD_SIGNAL :: series
  MACD_HIST :: series
  ATR :: series

text \<open>The module global \<open>_ta_backend\<close> is \<open>"pandas_ta"\<close>, \<open>"ta"\<close> or \<open>None\<close>.\<close>

datatype backend = Pandas_ta | Ta

text \<open>
  The third-party routines the tool calls (yfinance, scipy, pandas, pandas_ta, ta) are
  parameters. Each may raise. A routine returning a pandas Series gives the column as
  it is stored in the frame; \<open>pandas_ta.macd\<close> returns a DataFrame, a list of labelled
  columns in column order.
\<close>

record libs =
  ta_backend :: "backend option"
  yf_history :: "string \<Rightarrow> string \<Rightarrow> exn + dataframe"
  scipy_find_peaks :: peak_finder
  pta_sma :: "npfloat list \<Rightarrow> nat \<Rightarrow> exn + series"
  pta_rsi :: "npfloat list \<Rightarrow> nat \<Rightarrow> exn + series"
  pta_macd :: "npfloat list \<Rightarrow> nat \<Rightarrow> nat \<Rightarrow> nat \<Rightarrow> exn + (string \<times> series) list"
  pta_atr :: "npfloat list \<Rightarrow> npfloat list \<Rightarrow> npfloat list \<Rightarrow> nat \<Rightarrow> exn + series"
  rolling_mean :: "npfloat list \<Rightarrow> nat \<Rightarrow> exn + series"
  ta_rsi :: "npfloat list \<Rightarrow> nat \<Rightarrow> exn + series"
  ta_macd :: "npfloat list \<Rightarrow> nat \<Rightarrow> nat \<Rightarrow> nat \<Rightarrow> exn + series"
  ta_macd_signal :: "npfloat list \<Rightarrow> nat \<Rightarrow> nat \<Rightarrow> nat \<Rightarrow> exn + series"
  ta_macd_diff :: "npfloat list \<Rightarrow> nat \<Rightarrow> nat \<Rightarrow> nat \<Rightarrow> exn + series"
  ta_atr :: "npfloat list \<Rightarrow> npfloat list \<Rightarrow> npfloat list \<Rightarrow> nat \<Rightarrow> exn + series"

text \<open>
  Unpacking an iterable into three targets, \<open>a, b, c = it\<close>: a \<open>ValueError\<close> unless
  it yields exactly three items.
\<close>

fun unpack3 :: "'a list \<Rightarrow> exn + ('a \<times> 'a \<times> 'a)" where
  "unpack3 [] = Inl (OtherException ''not enough values to unpack (expected 3, got 0)'')"
| "unpack3 [a] = Inl (OtherException ''not enough values to unpack (expected 3, got 1)'')"
| "unpack3 [a, b] = Inl (OtherException ''not enough values to unpack (expected 3, got 2)'')"
| "unpack3 [a, b, c] = Inr (a, b, c)"
| "unpack3 (a # b # c # d # r) = Inl (OtherException ''too many values to unpack (expected 3)'')"

text \<open>
  The \<open>pandas_ta\<close> branch. Iterating a DataFrame yields its column labels, so the
  unpacking of the result of \<open>pta.macd\<close> binds three labels, and assigning a string to
  a column of the frame fills every row with it.
\<close>

definition indicators_pandas_ta :: "libs \<Rightarrow> dataframe \<Rightarrow> exn + indicators" where
  "indicators_pandas_ta L history =
     bind_exn (pta_sma L (Close history) 50) (\<lambda>sma_50.
     bind_exn (pta_sma L (Close history) 200) (\<lambda>sma_200.
     bind_exn (pta_rsi L (Close history) 14) (\<lambda>rsi.
     bind_exn (pta_macd L (Close history) 12 26 9) (\<lambda>df.
     bind_exn (unpack3 (map fst df)) (\<lambda>(a, b, c).
     bind_exn (pta_atr L (High history) (Low history) (Close history) 14) (\<lambda>atr.
     Inr \<lparr>SMA_50 = sma_50, SMA_200 = sma_200, RSI = rsi,
          MACD = replicate (length (Close history)) (PyStr a),
          MACD_SIGNAL = replicate (length (Close history)) (PyStr b),
          MACD_HIST = replicate (length (Close history)) (PyStr c),
          ATR = atr\<rparr>))))))"

text \<open>The \<open>ta\<close> branch.\<close>

definition indicators_ta :: "libs \<Rightarrow> dataframe \<Rightarrow> exn + indicators" where
  "indicators_ta L history =
     bind_exn (rolling_mean L (Close history) 50) (\<lambda>sma_50.
     bind_exn (rolling_mean L (Close history) 200) (\<lambda>sma_200.
     bind_exn (ta_rsi L (Close history) 14) (\<lambda>rsi.
     bind_exn (ta_macd L (Close history) 26 12 9) (\<lambda>macd.
     bind_exn (ta_macd_signal L (Close history) 26 12 9) (\<lambda>macd_signal.
     bind_exn (ta_macd_diff L (Close history) 26 12 9) (\<lambda>macd_diff.
     bind_exn (ta_atr L (High history) (Low history) (Close history) 14) (\<lambda>atr.
     Inr \<lparr>SMA_50 = sma_50, SMA_200 = sma_200, RSI = rsi,
          MACD = macd, MACD_SIGNAL = macd_signal, MACD_HIST = macd_diff,
          ATR = atr\<rparr>)))))))"

text \<open>\<open>isnull\<close> on one entry of a column; \<open>col.iloc[-1] if not col.isnull().all() else None\<close>.\<close>

fun isnull :: "pyval \<Rightarrow> bool" where
  "isnull PyNone = True"
| "isnull (PyFloat NaN) = True"
| "isnull v = False"

definition current :: "series \<Rightarrow> exn + pyval" where
  "current col = (if \<not> list_all isnull col then getitem col (- 1) else Inr PyNone)"

text \<open>\<open>dropna\<close> on a float column.\<close>

definition dropna :: "npfloat list \<Rightarrow> npfloat list" where
  "dropna col = filter (\<lambda>c. c \<noteq> NaN) col"

text \<open>Indexing an array by an array of indices, \<open>xs[idx]\<close>.\<close>

fun take_indices :: "'a list \<Rightarrow> nat list \<Rightarrow> exn + 'a list" where
  "take_indices xs [] = Inr []"
| "take_indices xs (i # idx) =
     bind_exn (getitem xs (int i)) (\<lambda>x.
     bind_exn (take_indices xs idx) (\<lambda>r. Inr (x # r)))"

text \<open>The slice \<open>xs[-3:]\<close>.\<close>

definition last3 :: "'a list \<Rightarrow> 'a list" where
  "last3 xs = drop (length xs - 3) xs"

text \<open>
  \<open>close_prices[idx][-3:] if len(idx) >= 3 else close_prices[idx]\<close>, the expression
  of both the support and the resistance levels.
\<close>

definition levels :: "npfloat list \<Rightarrow> nat list \<Rightarrow> exn + npfloat list" where
  "levels close_prices idx =
     (if length idx \<ge> 3 then bind_exn (take_indices close_prices idx) (\<lambda>a. Inr (last3 a))
      else take_indices close_prices idx)"

text \<open>\<open>lv.tolist() if len(lv) > 0 else []\<close>.\<close>

definition tolist_or_empty :: "npfloat list \<Rightarrow> pyval" where
  "tolist_or_empty lv = (if length lv > 0 then PyList (map PyFloat lv) else PyList [])"

definition insufficient_data :: pydict where
  "insufficient_data =
     [(''error'', PyStr ''Insufficient data for technical analysis. At least 50 data points are required.'')]"

definition no_backend :: pydict where
  "no_backend =
     [(''error'', PyStr ''Neither 'pandas_ta' nor 'ta' libraries are installed. Please install one: `pip install ta` (recommended) or `pip install pandas-ta`.'')]"

text \<open>The statements after the indicator columns are set, up to the returned report.\<close>

definition report :: "libs \<Rightarrow> string \<Rightarrow> dataframe \<Rightarrow> indicators \<Rightarrow> exn + pydict" where
  "report L ticker history ind =
     bind_exn (getitem (Close history) (- 1)) (\<lambda>current_price.
     bind_exn (current (SMA_50 ind)) (\<lambda>sma_50_current.
     bind_exn (current (SMA_200 ind)) (\<lambda>sma_200_current.
     bind_exn (current (RSI ind)) (\<lambda>rsi_current.
     bind_exn (current (MACD ind)) (\<lambda>macd_current.
     bind_exn (current (ATR ind)) (\<lambda>atr_current.
     let close_prices = dropna (Close history);
         peaks = scipy_find_peaks L close_prices 20;
         troughs = scipy_find_peaks L (map np_neg close_prices) 20 in
     bind_exn (levels close_prices troughs) (\<lambda>support_levels.
     bind_exn (levels close_prices peaks) (\<lambda>resistance_levels.
     bind_exn (identify_chart_patterns (scipy_find_peaks L) (Close history)) (\<lambda>patterns.
     Inr [(''ticker'', PyStr ticker),
          (''current_price'', PyFloat current_price),
          (''sma_50'', sma_50_current),
          (''sma_200'', sma_200_current),
          (''rsi'', rsi_current),
          (''macd'', macd_current),
          (''atr'', atr_current),
          (''support_levels'', tolist_or_empty support_levels),
          (''resistance_levels'', tolist_or_empty resistance_levels),
          (''identified_patterns'', PyList (map PyStr patterns))])))))))))"

text \<open>The body of the \<open>try\<close> statement of \<open>_run\<close>.\<close>

definition run_try :: "libs \<Rightarrow> string \<Rightarrow> string \<Rightarrow> exn + pydict" where
  "run_try L ticker period =
     bind_exn (yf_history L ticker period) (\<lambda>history.
     if Close history = [] \<or> length (Close history) < 50 then Inr insufficient_data
     else
       (case ta_backend L of
          Some Pandas_ta \<Rightarrow>
            bind_exn (indicators_pandas_ta L history) (report L ticker history)
        | Some Ta \<Rightarrow>
            bind_exn (indicators_ta L history) (report L ticker history)
        | None \<Rightarrow> Inr no_backend))"

text \<open>
  \<open>_run\<close>: the \<open>try\<close> statement with its two handlers. The result is \<open>Inr\<close> of the
  returned dictionary, or \<open>Inl\<close> of an exception that leaves the method.
\<close>

definition run :: "libs \<Rightarrow> string \<Rightarrow> string \<Rightarrow> exn + pydict" where
  "run L ticker period =
     (case run_try L ticker period of
        Inr d \<Rightarrow> Inr d
      | Inl IndexError \<Rightarrow>
          Inr [(''error'', PyStr ''Index error: Ensure sufficient data for technical analysis.'')]
      | Inl (OtherException msg) \<Rightarrow>
          Inr [(''error'', PyStr (''An unexpected error occurred: '' @ msg))])"

section \<open>The extrema detector of the specification\<close>

text \<open>
  Modelled from the spec: the ExtremaDetector. The source obtains peaks and troughs
  from \<open>scipy.signal.find_peaks\<close>, whose code is not part of the repository; the
  definitions below follow the algorithm the specification gives for it. A candidate
  peak is an index whose price is strictly greater than its neighbours, a plateau
  counting through its first index; candidate troughs are the candidate peaks of the
  negated series. The candidates are filtered from left to right: of two candidates
  closer than the minimum distance the one with the more extreme value survives, and
  the earlier one on a tie.
\<close>

datatype kind = Peak | Trough

record extrema_point =
  index :: nat
  price :: npfloat
  kind :: kind

fun plateau_falls :: "npfloat \<Rightarrow> npfloat list \<Rightarrow> bool" where
  "plateau_falls v [] = False"
| "plateau_falls v (y # ys) = (if np_eq y v then plateau_falls v ys else np_lt y v)"

fun candidates :: "nat \<Rightarrow> npfloat \<Rightarrow> npfloat list \<Rightarrow> nat list" where
  "candidates i prev [] = []"
| "candidates i prev (x # xs) =
     (if np_lt prev x \<and> plateau_falls x xs then i # candidates (Suc i) x xs
      else candidates (Suc i) x xs)"

definition candidate_peaks :: "npfloat list \<Rightarrow> nat list" where
  "candidate_peaks xs = (case xs of [] \<Rightarrow> [] | x # rest \<Rightarrow> candidates 1 x rest)"

text \<open>
  The filter keeps the survivors so far in reverse order: the candidate \<open>c\<close> meets the
  latest survivor \<open>k\<close>.
\<close>

fun keep_distant :: "npfloat list \<Rightarrow> nat \<Rightarrow> nat list \<Rightarrow> nat list \<Rightarrow> nat list" where
  "keep_distant xs d kept [] = rev kept"
| "keep_distant xs d [] (c # cs) = keep_distant xs d [c] cs"
| "keep_distant xs d (k # kept) (c # cs) =
     (if c - k < d then
        (if np_gt (xs ! c) (xs ! k) then keep_distant xs d (c # kept) cs
         else keep_distant xs d (k # kept) cs)
      else keep_distant xs d (c # k # kept) cs)"

definition spec_find_peaks :: peak_finder where
  "spec_find_peaks xs d = keep_distant xs d [] (candidate_peaks xs)"

fun merge_points :: "extrema_point list \<Rightarrow> extrema_point list \<Rightarrow> extrema_point list" where
  "merge_points [] qs = qs"
| "merge_points ps [] = ps"
| "merge_points (p # ps) (q # qs) =
     (if index p \<le> index q then p # merge_points ps (q # qs)
      else q # merge_points (p # ps) qs)"

definition find_extrema :: "npfloat list \<Rightarrow> nat \<Rightarrow> extrema_point list" where
  "find_extrema closePrices minDistance =
     merge_points
       (map (\<lambda>i. \<lparr>index = i, price = closePrices ! i, kind = Peak\<rparr>)
          (spec_find_peaks closePrices minDistance))
       (map (\<lambda>i. \<lparr>index = i, price = closePrices ! i, kind = Trough\<rparr>)
          (spec_find_peaks (map np_neg closePrices) minDistance))"

section \<open>The relative strength index of the specification\<close>

text \<open>
  Modelled from the spec: the RSI of the IndicatorPipeline. The source takes the RSI
  column from \<open>pandas_ta.rsi\<close> or \<open>ta.momentum.RSIIndicator\<close>, whose code is not part
  of the repository; the definitions below follow the specification: Wilder's
  smoothing of the average gain and the average loss over a window, RSI = 100 -
  100 / (1 + RS) with RS the average gain over the average loss, and RSI = 100 when
  the average loss is zero. Prices are real numbers here; an entry of the result is
  \<open>None\<close> during the warm-up.
\<close>

definition changes :: "real list \<Rightarrow> real list" where
  "changes closes = map (\<lambda>(a, b). b - a) (zip closes (tl closes))"

definition gains :: "real list \<Rightarrow> real list" where
  "gains closes = map (\<lambda>c. max c 0) (changes closes)"

definition losses :: "real list \<Rightarrow> real list" where
  "losses closes = map (\<lambda>c. max (- c) 0) (changes closes)"

fun wilder_from :: "nat \<Rightarrow> real \<Rightarrow> real list \<Rightarrow> real list" where
  "wilder_from n avg [] = []"
| "wilder_from n avg (x # xs) =
     (let avg' = (avg * (real n - 1) + x) / real n in avg' # wilder_from n avg' xs)"

definition wilder :: "nat \<Rightarrow> real list \<Rightarrow> real list" where
  "wilder n xs =
     (if n = 0 \<or> length xs < n then []
      else (let first = sum_list (take n xs) / real n
            in first # wilder_from n first (drop n xs)))"

definition rsi_value :: "real \<Rightarrow> real \<Rightarrow> real" where
  "rsi_value avg_gain avg_loss =
     (if avg_loss = 0 then 100 else 100 - 100 / (1 + avg_gain / avg_loss))"

definition rsi :: "nat \<Rightarrow> real list \<Rightarrow> real option list" where
  "rsi n closes =
     replicate (min n (length closes)) None @
     map (\<lambda>(g, l). Some (rsi_value g l))
       (zip (wilder n (gains closes)) (wilder n (losses closes)))"

section \<open>Concrete inputs\<close>

text \<open>
  Price series used as concrete inputs: \<open>zigzag\<close> joins the given turning prices by
  straight legs of ten bars each.
\<close>

definition leg :: "real \<Rightarrow> real \<Rightarrow> real list" where
  "leg a b = map (\<lambda>k. a + (b - a) * real k / 10) [0..<10]"

fun zigzag :: "real list \<Rightarrow> real list" where
  "zigzag [] = []"
| "zigzag [a] = [a]"
| "zigzag (a # b # r) = leg a b @ zigzag (b # r)"

text \<open>
  Three peaks of prices 100, 120, 100 at the indices 10, 30, 50; two peaks of prices
  100 and 102, and of prices 100 and 110, at the indices 10 and 30. Every price of
  the three series is a whole number.
\<close>

definition hs_prices :: "real list" where
  "hs_prices = zigzag [90, 100, 90, 120, 90, 100, 90]"

definition top_prices_102 :: "real list" where
  "top_prices_102 = zigzag [90, 100, 90] @ tl (zigzag [92, 102, 92])"

definition top_prices_110 :: "real list" where
  "top_prices_110 = zigzag [90, 100, 90, 110, 90]"

text \<open>
  Two peaks, at the indices 1 and 22, whose prices are float64 values with an exact
  relative difference just below 3/100.
\<close>

definition threshold_prices :: "real list" where
  "threshold_prices =
     [0, 4503599627370567 / 35184372088832,
      0, 0, 0, 0, 0, 0, 0, 0, 0, 0, 0, 0, 0, 0, 0, 0, 0, 0, 0, 0,
      4638707616191684 / 35184372088832, 0]"

definition frame_of :: "npfloat list \<Rightarrow> dataframe" where
  "frame_of c = \<lparr>Close = c, High = c, Low = c\<rparr>"

definition const_column :: "real \<Rightarrow> npfloat list \<Rightarrow> series" where
  "const_column v c = map (\<lambda>_. PyFloat (Fin v)) c"

text \<open>
  An environment for concrete runs: the given backend and market data answer, the
  extrema detector of the specification, and constant indicator columns. Its MACD
  frame has the column labels and the column order of \<open>pandas_ta.macd\<close>: line,
  histogram, signal.
\<close>

definition demo_libs :: "backend option \<Rightarrow> (exn + dataframe) \<Rightarrow> libs" where
  "demo_libs b fetched =
     \<lparr>ta_backend = b,
      yf_history = (\<lambda>ticker period. fetched),
      scipy_find_peaks = spec_find_peaks,
      pta_sma = (\<lambda>c n. Inr (const_column 100 c)),
      pta_rsi = (\<lambda>c n. Inr (const_column 50 c)),
      pta_macd = (\<lambda>c fast slow signal.
        Inr [(''MACD_12_26_9'', const_column 3 c),
             (''MACDh_12_26_9'', const_column 1 c),
             (''MACDs_12_26_9'', const_column 2 c)]),
      pta_atr = (\<lambda>h l c n. Inr (const_column 1 c)),
      rolling_mean = (\<lambda>c n. Inr (const_column 100 c)),
      ta_rsi = (\<lambda>c n. Inr (const_column 50 c)),
      ta_macd = (\<lambda>c slow fast sign. Inr (const_column 3 c)),
      ta_macd_signal = (\<lambda>c slow fast sign. Inr (const_column 2 c)),
      ta_macd_diff = (\<lambda>c slow fast sign. Inr (const_column 1 c)),
      ta_atr = (\<lambda>h l c n. Inr (const_column 1 c))\<rparr>"

text \<open>The keys of a report, in the order of the returned dictionary.\<close>

definition report_keys :: "string list" where
  "report_keys =
     [''ticker'', ''current_price'', ''sma_50'', ''sma_200'', ''rsi'', ''macd'', ''atr'',
      ''support_levels'', ''resistance_levels'', ''identified_patterns'']"

section \<open>Indexing and sequencing\<close>

lemma getitem_nat:
  "getitem xs (int i) = (if i < length xs then Inr (xs ! i) else Inl IndexError)"
  by (simp add: getitem_def)

lemma getitem_from_end:
  "0 < k \<Longrightarrow> k \<le> length xs \<Longrightarrow> getitem xs (- int k) = Inr (xs ! (length xs - k))"
  by (simp add: getitem_def)

lemma getitem_append3:
  "getitem (pre @ [a, b, c]) (- 3) = Inr a"
  "getitem (pre @ [a, b, c]) (- 2) = Inr b"
  "getitem (pre @ [a, b, c]) (- 1) = Inr c"
  using getitem_from_end [of 3 "pre @ [a, b, c]"] getitem_from_end [of 2 "pre @ [a, b, c]"]
    getitem_from_end [of 1 "pre @ [a, b, c]"]
  by (simp_all add: nth_append)

lemma getitem_append2:
  "getitem (pre @ [a, b]) (- 2) = Inr a"
  "getitem (pre @ [a, b]) (- 1) = Inr b"
  using getitem_from_end [of 2 "pre @ [a, b]"] getitem_from_end [of 1 "pre @ [a, b]"]
  by (simp_all add: nth_append)

lemma length3: "length ys = 3 \<Longrightarrow> \<exists>a b c. ys = [a, b, c]"
  by (auto simp: numeral_3_eq_3 length_Suc_conv)

lemma length2: "length ys = 2 \<Longrightarrow> \<exists>a b. ys = [a, b]"
  by (auto simp: numeral_2_eq_2 length_Suc_conv)

lemma last_three: "3 \<le> length xs \<Longrightarrow> \<exists>pre a b c. xs = pre @ [a, b, c]"
proof -
  assume n: "3 \<le> length xs"
  then have "length (drop (length xs - 3) xs) = 3" by simp
  then obtain a b c where "drop (length xs - 3) xs = [a, b, c]"
    using length3 by blast
  then have "xs = take (length xs - 3) xs @ [a, b, c]"
    using append_take_drop_id [of "length xs - 3" xs] by simp
  then show ?thesis by blast
qed

lemma last_two: "2 \<le> length xs \<Longrightarrow> \<exists>pre a b. xs = pre @ [a, b]"
proof -
  assume n: "2 \<le> length xs"
  then have "length (drop (length xs - 2) xs) = 2" by simp
  then obtain a b where "drop (length xs - 2) xs = [a, b]"
    using length2 by blast
  then have "xs = take (length xs - 2) xs @ [a, b]"
    using append_take_drop_id [of "length xs - 2" xs] by simp
  then show ?thesis by blast
qed

lemma bind_exn_Inr: "bind_exn m f = Inr y \<longleftrightarrow> (\<exists>x. m = Inr x \<and> f x = Inr y)"
  by (cases m) simp_all

section \<open>Rounding to binary64\<close>

lemma bit_length_numeral:
  "bit_length (numeral k) = Suc (bit_length (numeral k div 2))"
  "bit_length 0 = 0"
  "bit_length (Suc 0) = Suc 0"
  using bit_length.simps [of "numeral k"] bit_length.simps [of 0] bit_length.simps [of "Suc 0"]
  by simp_all

lemma bit_length_bounds:
  "0 < n \<Longrightarrow> 2 ^ (bit_length n - 1) \<le> n \<and> n < 2 ^ bit_length n"
proof (induction n rule: bit_length.induct)
  case (1 n)
  show ?case
  proof (cases "n div 2 = 0")
    case True
    with "1.prems" have "n = 1" by (simp add: div_eq_0_iff)
    then show ?thesis by (simp add: bit_length_numeral)
  next
    case False
    then have pos: "0 < n div 2" by simp
    from "1.prems" have b: "bit_length n = Suc (bit_length (n div 2))"
      using bit_length.simps [of n] by simp
    from "1.IH" pos "1.prems" have lo: "2 ^ (bit_length (n div 2) - 1) \<le> n div 2"
      and hi: "n div 2 < 2 ^ bit_length (n div 2)"
      by simp_all
    from pos have k: "0 < bit_length (n div 2)"
      using bit_length.simps [of "n div 2"] by simp
    then have "(2::nat) ^ bit_length (n div 2) = 2 * 2 ^ (bit_length (n div 2) - 1)"
      by (cases "bit_length (n div 2)") simp_all
    with lo have "2 ^ bit_length (n div 2) \<le> n" by linarith
    moreover from hi have "n < 2 * 2 ^ bit_length (n div 2)" by linarith
    ultimately show ?thesis by (simp add: b)
  qed
qed

lemma round_even_nearest: "\<bar>real_of_int (round_even m) - m\<bar> \<le> 1 / 2"
  unfolding round_even_def Let_def by (auto simp: abs_le_iff)


lemma pow2_nat: "pow2 (int k) = 2 ^ k"
  by (simp add: pow2_def)

lemma pow2_neg: "0 < k \<Longrightarrow> pow2 (- int k) = 1 / 2 ^ k"
  by (simp add: pow2_def)

lemma real_pow2_le: "(2::nat) ^ k \<le> n \<Longrightarrow> (2::real) ^ k \<le> real n"
  by (metis of_nat_le_iff of_nat_numeral of_nat_power)

lemma real_lt_pow2: "n < (2::nat) ^ k \<Longrightarrow> real n + 1 \<le> (2::real) ^ k"
proof -
  assume "n < 2 ^ k"
  then have "Suc n \<le> 2 ^ k" by simp
  then have "real (Suc n) \<le> real (2 ^ k)" by (simp only: of_nat_le_iff)
  then show ?thesis by simp
qed

lemma ilog2_bounds:
  assumes "0 < x"
  shows "pow2 (ilog2 x) \<le> x \<and> x < pow2 (ilog2 x + 1)"
proof (cases "1 \<le> x")
  case True
  define n where "n = nat \<lfloor>x\<rfloor>"
  define k where "k = bit_length n"
  from True have n: "0 < n" by (simp add: n_def)
  from bit_length_bounds [OF n] have lo: "2 ^ (k - 1) \<le> n" and hi: "n < 2 ^ k"
    by (simp_all add: k_def)
  from n have kpos: "0 < k" using bit_length.simps [of n] by (simp add: k_def)
  have e: "ilog2 x = int (k - 1)" and e': "ilog2 x + 1 = int k"
    using True kpos by (simp_all add: ilog2_def n_def k_def)
  have nx: "real n \<le> x" "x < real n + 1"
    using True unfolding n_def by linarith+
  have "pow2 (ilog2 x) \<le> x"
    unfolding e pow2_nat using real_pow2_le [OF lo] nx by linarith
  moreover have "x < pow2 (ilog2 x + 1)"
    unfolding e' pow2_nat using real_lt_pow2 [OF hi] nx by linarith
  ultimately show ?thesis ..
next
  case False
  define y where "y = 1 / x"
  define m where "m = nat \<lceil>y\<rceil> - 1"
  define k where "k = bit_length m"
  from False assms have y: "1 < y" by (simp add: y_def)
  have my: "real m < y" "y \<le> real m + 1"
    using y unfolding m_def by linarith+
  with y have m: "0 < m" by linarith
  from bit_length_bounds [OF m] have lo: "2 ^ (k - 1) \<le> m" and hi: "m < 2 ^ k"
    by (simp_all add: k_def)
  from m have kpos: "0 < k" using bit_length.simps [of m] by (simp add: k_def)
  from False have e: "ilog2 x = - int k" by (simp add: ilog2_def y_def m_def k_def)
  have x: "1 / y = x" by (simp add: y_def)
  have le: "y \<le> 2 ^ k" using real_lt_pow2 [OF hi] my by linarith
  have p: "pow2 (ilog2 x) = 1 / 2 ^ k"
    by (simp add: e pow2_neg [OF kpos])
  have "1 / 2 ^ k \<le> 1 / y"
    using le y by (simp add: field_simps)
  then have "1 / 2 ^ k \<le> x" by (simp only: x)
  then have a: "pow2 (ilog2 x) \<le> x"
    by (simp only: p)
  have lt: "2 ^ (k - 1) < y" using real_pow2_le [OF lo] my by linarith
  have "- int k + 1 = - int (k - 1)" using kpos by simp
  then have p': "pow2 (ilog2 x + 1) = 1 / 2 ^ (k - 1)"
    unfolding e by (cases "k - 1 = 0") (simp_all add: pow2_def)
  have "1 / y < 1 / 2 ^ (k - 1)"
    using lt y by (simp add: field_simps)
  then have "x < 1 / 2 ^ (k - 1)" by (simp only: x)
  then have b: "x < pow2 (ilog2 x + 1)"
    by (simp only: p')
  from a b show ?thesis ..
qed


lemma pow2_pos: "0 < pow2 e"
  by (simp add: pow2_def)

lemma round64_pos_nearest:
  assumes "round64_pos x = Fin y"
  shows "\<bar>y - x\<bar> \<le> pow2 (max (ilog2 x) (- 1022) - 52) / 2"
proof -
  define ulp where "ulp = pow2 (max (ilog2 x) (- 1022) - 52)"
  have u: "0 < ulp" by (simp add: ulp_def pow2_pos)
  from assms have y: "y = real_of_int (round_even (x / ulp)) * ulp"
    by (simp add: round64_pos_def Let_def ulp_def split: if_splits)
  have "\<bar>real_of_int (round_even (x / ulp)) - x / ulp\<bar> * ulp \<le> 1 / 2 * ulp"
    using round_even_nearest [of "x / ulp"] u by (simp only: mult_le_cancel_right_pos)
  moreover have "\<bar>real_of_int (round_even (x / ulp)) - x / ulp\<bar> * ulp = \<bar>y - x\<bar>"
  proof -
    have "\<bar>real_of_int (round_even (x / ulp)) - x / ulp\<bar> * ulp =
        \<bar>(real_of_int (round_even (x / ulp)) - x / ulp) * ulp\<bar>"
      using u by (simp add: abs_mult)
    also have "(real_of_int (round_even (x / ulp)) - x / ulp) * ulp = y - x"
      using u by (simp add: y field_simps)
    finally show ?thesis .
  qed
  ultimately show ?thesis by (simp add: ulp_def)
qed

lemmas round64_eval =
  round64_def round64_pos_def ilog2_def bit_length_numeral pow2_def round_even_def Let_def

lemma round64_literal: "round64 (3 / 100) = Fin (1080863910568919 / 36028797018963968)"
  by (simp add: round64_eval)

lemma round64_integers:
  "round64 2 = Fin 2" "round64 10 = Fin 10" "round64 (- 20) = Fin (- 20)"
  by (simp_all add: round64_eval)

lemma round64_quotients:
  "round64 (1 / 50) = Fin (5764607523034235 / 288230376151711744)"
  "round64 (1 / 10) = Fin (3602879701896397 / 36028797018963968)"
  "round64 (1 / 6) = Fin (6004799503160661 / 36028797018963968)"
  by (simp_all add: round64_eval)

lemma round64_threshold:
  "round64 (135107988821117 / 35184372088832) = Fin (135107988821117 / 35184372088832)"
  "round64 (135107988821117 / 4503599627370567) = Fin (1080863910568919 / 36028797018963968)"
  by (simp_all add: round64_eval)

lemma round64_zero: "round64 0 = Fin 0"
  by (simp add: round64_def)

lemma np_lt_zero: "np_lt NZero c = np_lt (Fin 0) c"
  by (cases c) simp_all

section \<open>The concrete price series\<close>

lemma hs_prices_eq:
  "hs_prices =
     [90, 91, 92, 93, 94, 95, 96, 97, 98, 99, 100, 99, 98, 97, 96, 95, 94, 93, 92, 91,
      90, 93, 96, 99, 102, 105, 108, 111, 114, 117, 120, 117, 114, 111, 108, 105, 102, 99, 96, 93,
      90, 91, 92, 93, 94, 95, 96, 97, 98, 99, 100, 99, 98, 97, 96, 95, 94, 93, 92, 91, 90]"
  by (simp add: hs_prices_def leg_def upt_rec)

lemma hs_prices_peaks: "spec_find_peaks (map Fin hs_prices) 20 = [10, 30, 50]"
  unfolding hs_prices_eq
  by (simp add: spec_find_peaks_def candidate_peaks_def np_eq_def np_gt_def)

lemma hs_prices_troughs: "spec_find_peaks (map np_neg (map Fin hs_prices)) 20 = [20, 40]"
  unfolding hs_prices_eq
  by (simp add: spec_find_peaks_def candidate_peaks_def np_eq_def np_gt_def)

lemma hs_prices_length: "length hs_prices = 61"
  unfolding hs_prices_eq by simp

lemma hs_prices_nth:
  "hs_prices ! 10 = 100" "hs_prices ! 30 = 120" "hs_prices ! 50 = 100"
  "hs_prices ! 20 = 90" "hs_prices ! 40 = 90"
  unfolding hs_prices_eq by simp_all

lemma top_102_peaks: "spec_find_peaks (map Fin top_prices_102) 20 = [10, 30]"
  by (simp add: top_prices_102_def leg_def upt_rec spec_find_peaks_def candidate_peaks_def
      np_eq_def np_gt_def)

lemma top_110_peaks: "spec_find_peaks (map Fin top_prices_110) 20 = [10, 30]"
  by (simp add: top_prices_110_def leg_def upt_rec spec_find_peaks_def candidate_peaks_def
      np_eq_def np_gt_def)

lemma top_102_facts:
  "length top_prices_102 = 41" "top_prices_102 ! 10 = 100" "top_prices_102 ! 30 = 102"
  by (simp_all add: top_prices_102_def leg_def upt_rec)

lemma top_110_facts:
  "length top_prices_110 = 41" "top_prices_110 ! 10 = 100" "top_prices_110 ! 30 = 110"
  by (simp_all add: top_prices_110_def leg_def upt_rec)

section \<open>The pattern rules\<close>

lemma hs_short: "length (fp close 20) < 3 \<Longrightarrow> is_head_and_shoulders fp close = Inr False"
  by (simp add: is_head_and_shoulders_def Let_def)

lemma hs_last3:
  assumes "fp close 20 = pre @ [l, h, r]" "l < length close" "h < length close" "r < length close"
  shows "is_head_and_shoulders fp close =
    Inr (np_gt (close ! h) (close ! l) \<and> np_gt (close ! h) (close ! r))"
  using assms by (simp add: is_head_and_shoulders_def Let_def getitem_append3 getitem_nat)

lemma head_and_shoulders_total:
  assumes "\<forall>i\<in>set (fp close 20). i < length close"
  shows "\<exists>r. is_head_and_shoulders fp close = Inr r"
proof (cases "3 \<le> length (fp close 20)")
  case True
  then obtain pre l h r where ps: "fp close 20 = pre @ [l, h, r]"
    using last_three by blast
  with assms have "l < length close" "h < length close" "r < length close" by simp_all
  with ps show ?thesis by (simp add: hs_last3)
next
  case False
  then show ?thesis by (auto simp: hs_short)
qed

text \<open>
  C3. When the peak indices are indices of the series, \<open>is_head_and_shoulders\<close> returns
  true exactly when the detection with distance 20 yields at least three peaks, that
  is a list ending in some \<open>l\<close>, \<open>h\<close>, \<open>r\<close>, and the price at \<open>h\<close> is strictly greater
  than the price at \<open>l\<close> and the price at \<open>r\<close>; it returns false otherwise. A series
  whose peaks are the indices 10, 30, 50 with the prices 100, 120, 100 is classified
  as head and shoulders.
\<close>

theorem head_and_shoulders_rule:
  "((\<forall>i\<in>set (fp close 20). i < length close) \<longrightarrow>
     is_head_and_shoulders fp close =
       Inr (\<exists>pre l h r. fp close 20 = pre @ [l, h, r] \<and>
              np_gt (close ! h) (close ! l) \<and> np_gt (close ! h) (close ! r))) \<and>
   (fp close 20 = [10, 30, 50] \<and> 50 < length close \<and>
    close ! 10 = Fin 100 \<and> close ! 30 = Fin 120 \<and> close ! 50 = Fin 100 \<longrightarrow>
     is_head_and_shoulders fp close = Inr True)"
proof (intro conjI impI)
  assume valid: "\<forall>i\<in>set (fp close 20). i < length close"
  show "is_head_and_shoulders fp close =
       Inr (\<exists>pre l h r. fp close 20 = pre @ [l, h, r] \<and>
              np_gt (close ! h) (close ! l) \<and> np_gt (close ! h) (close ! r))"
  proof (cases "3 \<le> length (fp close 20)")
    case True
    then obtain pre l h r where ps: "fp close 20 = pre @ [l, h, r]"
      using last_three by blast
    with valid have "l < length close" "h < length close" "r < length close" by simp_all
    with ps show ?thesis by (simp add: hs_last3)
  next
    case False
    then have "\<not> (\<exists>pre l h r. fp close 20 = pre @ [l, h, r])" by auto
    with False show ?thesis by (simp add: hs_short)
  qed
next
  assume fixture: "fp close 20 = [10, 30, 50] \<and> 50 < length close \<and>
    close ! 10 = Fin 100 \<and> close ! 30 = Fin 120 \<and> close ! 50 = Fin 100"
  with hs_last3 [of fp close "[]" 10 30 50]
  show "is_head_and_shoulders fp close = Inr True"
    by (simp add: np_gt_def)
qed

theorem head_and_shoulders_rule_witness:
  "spec_find_peaks (map Fin hs_prices) 20 = [10, 30, 50] \<and> length (map Fin hs_prices) = 61 \<and>
   map Fin hs_prices ! 10 = Fin 100 \<and> map Fin hs_prices ! 30 = Fin 120 \<and>
   map Fin hs_prices ! 50 = Fin 100 \<and>
   is_head_and_shoulders spec_find_peaks (map Fin hs_prices) = Inr True"
  using head_and_shoulders_rule [of spec_find_peaks "map Fin hs_prices"]
  by (simp add: hs_prices_peaks hs_prices_length hs_prices_nth np_gt_def)

lemma within_3_percent_np:
  assumes "idx = pre @ [a, b]" "a < length close" "b < length close"
  shows "within_3_percent close idx =
    Inr (np_lt (np_div (np_abs (np_sub (close ! b) (close ! a))) (close ! a))
      (round64 (3 / 100)))"
  using assms by (simp add: within_3_percent_def getitem_append2 getitem_nat)

lemma double_short:
  "length (fp close 20) < 2 \<Longrightarrow> is_double_top fp close = Inr False"
  "length (fp (map np_neg close) 20) < 2 \<Longrightarrow> is_double_bottom fp close = Inr False"
  by (simp_all add: is_double_top_def is_double_bottom_def Let_def)

lemma double_top_last2:
  assumes "fp close 20 = pre @ [a, b]" "a < length close" "b < length close"
  shows "is_double_top fp close =
    Inr (np_lt (np_div (np_abs (np_sub (close ! b) (close ! a))) (close ! a))
      (round64 (3 / 100)))"
  using assms within_3_percent_np [of "pre @ [a, b]" pre a b close]
  by (simp add: is_double_top_def Let_def)

lemma double_bottom_last2:
  assumes "fp (map np_neg close) 20 = pre @ [a, b]" "a < length close" "b < length close"
  shows "is_double_bottom fp close =
    Inr (np_lt (np_div (np_abs (np_sub (close ! b) (close ! a))) (close ! a))
      (round64 (3 / 100)))"
  using assms within_3_percent_np [of "pre @ [a, b]" pre a b close]
  by (simp add: is_double_bottom_def Let_def)

lemma rounded_test:
  assumes "p \<noteq> 0" "round64 (q - p) = Fin d"
  shows "np_lt (np_div (np_abs (np_sub (Fin q) (Fin p))) (Fin p)) (round64 (3 / 100)) =
    np_lt (round64 (\<bar>d\<bar> / p)) (round64 (3 / 100))"
proof (cases "d = 0")
  case True
  with assms show ?thesis by (simp add: np_lt_zero round64_zero)
next
  case False
  with assms show ?thesis by simp
qed

lemma threshold_peaks: "spec_find_peaks (map Fin threshold_prices) 20 = [1, 22]"
  by (simp add: threshold_prices_def spec_find_peaks_def candidate_peaks_def np_eq_def np_gt_def)

lemma threshold_facts:
  "length threshold_prices = 24"
  "threshold_prices ! 1 = 4503599627370567 / 35184372088832"
  "threshold_prices ! 22 = 4638707616191684 / 35184372088832"
  by (simp_all add: threshold_prices_def)

text \<open>
  C4, as stated, fails on the code. The series \<open>threshold_prices\<close> has two peaks, 21
  bars apart, and the absolute difference of their prices divided by the earlier price
  is strictly below 3/100; the float64 quotient that the code computes is the float64
  value of \<open>0.03\<close> itself, so the comparison is false and no double top is reported.
\<close>

theorem double_top_exact_counterexample:
  "spec_find_peaks (map Fin threshold_prices) 20 = [] @ [1, 22] \<and>
   length threshold_prices = 24 \<and>
   threshold_prices ! 1 \<noteq> 0 \<and>
   \<bar>threshold_prices ! 22 - threshold_prices ! 1\<bar> / threshold_prices ! 1 < 3 / 100 \<and>
   is_double_top spec_find_peaks (map Fin threshold_prices) = Inr False"
proof -
  have v: "map Fin threshold_prices ! 1 = Fin (4503599627370567 / 35184372088832)"
    "map Fin threshold_prices ! 22 = Fin (4638707616191684 / 35184372088832)"
    by (simp_all add: threshold_prices_def)
  have d: "np_sub (Fin (4638707616191684 / 35184372088832))
      (Fin (4503599627370567 / 35184372088832)) = Fin (135107988821117 / 35184372088832)"
    using round64_threshold(1) by simp
  have "is_double_top spec_find_peaks (map Fin threshold_prices) =
    Inr (np_lt (np_div (np_abs (np_sub (map Fin threshold_prices ! 22)
      (map Fin threshold_prices ! 1))) (map Fin threshold_prices ! 1)) (round64 (3 / 100)))"
    by (rule double_top_last2 [of _ _ "[]"]) (simp_all add: threshold_peaks threshold_facts)
  then have "is_double_top spec_find_peaks (map Fin threshold_prices) = Inr False"
    unfolding v d by (simp add: round64_threshold round64_literal)
  moreover have "threshold_prices ! 1 \<noteq> 0"
    "\<bar>threshold_prices ! 22 - threshold_prices ! 1\<bar> / threshold_prices ! 1 < 3 / 100"
    by (simp_all add: threshold_prices_def)
  ultimately show ?thesis
    by (simp only: threshold_peaks threshold_facts append_Nil simp_thms)
qed

text \<open>
  C4. For every series whose detected indices are indices of the series,
  \<open>is_double_top\<close> returns true exactly when there are at least two peaks and, with
  \<open>a\<close> and \<open>b\<close> the last two, the float64 value of
  \<open>abs(close[b] - close[a]) / close[a]\<close> is strictly below the float64 value of
  \<open>0.03\<close>; \<open>is_double_bottom\<close> is the same rule on the last two troughs, the peaks
  of the negated series. For finite prices with a non-zero earlier price the value is
  the rounded quotient of the rounded difference. Last peaks of prices 100 and 102
  match the double top, last peaks of prices 100 and 110 do not.
\<close>

theorem double_top_bottom_rule:
  "((\<forall>i\<in>set (fp close 20). i < length close) \<longrightarrow>
      is_double_top fp close =
        Inr (\<exists>pre a b. fp close 20 = pre @ [a, b] \<and>
               np_lt (np_div (np_abs (np_sub (close ! b) (close ! a))) (close ! a))
                 (round64 (3 / 100)))) \<and>
   ((\<forall>i\<in>set (fp (map np_neg close) 20). i < length close) \<longrightarrow>
      is_double_bottom fp close =
        Inr (\<exists>pre a b. fp (map np_neg close) 20 = pre @ [a, b] \<and>
               np_lt (np_div (np_abs (np_sub (close ! b) (close ! a))) (close ! a))
                 (round64 (3 / 100)))) \<and>
   (p \<noteq> 0 \<and> round64 (q - p) = Fin d \<longrightarrow>
      np_lt (np_div (np_abs (np_sub (Fin q) (Fin p))) (Fin p)) (round64 (3 / 100)) =
      np_lt (round64 (\<bar>d\<bar> / p)) (round64 (3 / 100))) \<and>
   (fp close 20 = pre @ [a, b] \<and> a < length close \<and> b < length close \<and>
    close ! a = Fin 100 \<and> close ! b = Fin 102 \<longrightarrow> is_double_top fp close = Inr True) \<and>
   (fp close 20 = pre @ [a, b] \<and> a < length close \<and> b < length close \<and>
    close ! a = Fin 100 \<and> close ! b = Fin 110 \<longrightarrow> is_double_top fp close = Inr False)"
proof (intro conjI impI)
  assume valid: "\<forall>i\<in>set (fp close 20). i < length close"
  show "is_double_top fp close =
        Inr (\<exists>pre a b. fp close 20 = pre @ [a, b] \<and>
               np_lt (np_div (np_abs (np_sub (close ! b) (close ! a))) (close ! a))
                 (round64 (3 / 100)))"
  proof (cases "2 \<le> length (fp close 20)")
    case True
    then obtain pre a b where ps: "fp close 20 = pre @ [a, b]"
      using last_two by blast
    with valid have "a < length close" "b < length close" by simp_all
    with ps show ?thesis by (simp add: double_top_last2)
  next
    case False
    then have "\<not> (\<exists>pre a b. fp close 20 = pre @ [a, b])" by auto
    with False show ?thesis by (simp add: double_short)
  qed
next
  assume valid: "\<forall>i\<in>set (fp (map np_neg close) 20). i < length close"
  show "is_double_bottom fp close =
        Inr (\<exists>pre a b. fp (map np_neg close) 20 = pre @ [a, b] \<and>
               np_lt (np_div (np_abs (np_sub (close ! b) (close ! a))) (close ! a))
                 (round64 (3 / 100)))"
  proof (cases "2 \<le> length (fp (map np_neg close) 20)")
    case True
    then obtain pre a b where ps: "fp (map np_neg close) 20 = pre @ [a, b]"
      using last_two by blast
    with valid have "a < length close" "b < length close" by simp_all
    with ps show ?thesis by (simp add: double_bottom_last2)
  next
    case False
    then have "\<not> (\<exists>pre a b. fp (map np_neg close) 20 = pre @ [a, b])" by auto
    with False show ?thesis by (simp add: double_short)
  qed
next
  assume "p \<noteq> 0 \<and> round64 (q - p) = Fin d"
  then show "np_lt (np_div (np_abs (np_sub (Fin q) (Fin p))) (Fin p)) (round64 (3 / 100)) =
      np_lt (round64 (\<bar>d\<bar> / p)) (round64 (3 / 100))"
    using rounded_test [of p q d] by blast
next
  assume "fp close 20 = pre @ [a, b] \<and> a < length close \<and> b < length close \<and>
    close ! a = Fin 100 \<and> close ! b = Fin 102"
  then show "is_double_top fp close = Inr True"
    by (simp add: double_top_last2 round64_integers round64_quotients round64_literal)
next
  assume "fp close 20 = pre @ [a, b] \<and> a < length close \<and> b < length close \<and>
    close ! a = Fin 100 \<and> close ! b = Fin 110"
  then show "is_double_top fp close = Inr False"
    by (simp add: double_top_last2 round64_integers round64_quotients round64_literal)
qed

theorem double_top_bottom_rule_witness:
  "length top_prices_102 = 41 \<and> length top_prices_110 = 41 \<and>
   spec_find_peaks (map Fin top_prices_102) 20 = [] @ [10, 30] \<and>
   top_prices_102 ! 10 = 100 \<and> top_prices_102 ! 30 = 102 \<and>
   is_double_top spec_find_peaks (map Fin top_prices_102) = Inr True \<and>
   spec_find_peaks (map Fin top_prices_110) 20 = [] @ [10, 30] \<and>
   top_prices_110 ! 10 = 100 \<and> top_prices_110 ! 30 = 110 \<and>
   is_double_top spec_find_peaks (map Fin top_prices_110) = Inr False \<and>
   spec_find_peaks (map np_neg (map Fin hs_prices)) 20 = [] @ [20, 40] \<and>
   length hs_prices = 61 \<and> hs_prices ! 20 = 90 \<and> hs_prices ! 40 = 90 \<and>
   is_double_bottom spec_find_peaks (map Fin hs_prices) = Inr True \<and>
   round64 (102 - 100) = Fin 2 \<and>
   np_lt (np_div (np_abs (np_sub (Fin 102) (Fin 100))) (Fin 100)) (round64 (3 / 100)) =
     np_lt (round64 (\<bar>2\<bar> / 100)) (round64 (3 / 100))"
proof -
  have t102: "is_double_top spec_find_peaks (map Fin top_prices_102) = Inr True"
    using double_top_bottom_rule
      [THEN conjunct2, THEN conjunct2, THEN conjunct2, THEN conjunct1,
        of spec_find_peaks "map Fin top_prices_102" "[]" 10 30]
    by (simp add: top_102_peaks top_102_facts)
  have t110: "is_double_top spec_find_peaks (map Fin top_prices_110) = Inr False"
    using double_top_bottom_rule
      [THEN conjunct2, THEN conjunct2, THEN conjunct2, THEN conjunct2,
        of spec_find_peaks "map Fin top_prices_110" "[]" 10 30]
    by (simp add: top_110_peaks top_110_facts)
  have "is_double_bottom spec_find_peaks (map Fin hs_prices) =
      Inr (\<exists>pre a b. spec_find_peaks (map np_neg (map Fin hs_prices)) 20 = pre @ [a, b] \<and>
        np_lt (np_div (np_abs (np_sub (map Fin hs_prices ! b) (map Fin hs_prices ! a)))
          (map Fin hs_prices ! a)) (round64 (3 / 100)))"
    using double_top_bottom_rule
      [THEN conjunct2, THEN conjunct1, of spec_find_peaks "map Fin hs_prices"]
    by (simp add: hs_prices_troughs hs_prices_length del: map_map)
  then have bottom: "is_double_bottom spec_find_peaks (map Fin hs_prices) = Inr True"
    by (simp add: hs_prices_troughs hs_prices_length hs_prices_nth round64_zero round64_literal
        del: map_map)
  have r: "round64 (102 - 100) = Fin 2" by (simp add: round64_integers)
  from double_top_bottom_rule
      [THEN conjunct2, THEN conjunct2, THEN conjunct1, of 100 102 2] r
  have e: "np_lt (np_div (np_abs (np_sub (Fin 102) (Fin 100))) (Fin 100)) (round64 (3 / 100)) =
     np_lt (round64 (\<bar>2\<bar> / 100)) (round64 (3 / 100))"
    by simp
  from t102 t110 bottom r e show ?thesis
    by (simp add: top_102_peaks top_110_peaks top_102_facts top_110_facts
        hs_prices_troughs hs_prices_length hs_prices_nth del: map_map)
qed

lemma double_top_np:
  assumes "fp close 20 = pre @ [a, b]" "a < length close" "b < length close"
  shows "\<exists>r. is_double_top fp close = Inr r"
  using assms within_3_percent_np [of "pre @ [a, b]" pre a b close]
  by (auto simp: is_double_top_def Let_def)

lemma double_bottom_np:
  assumes "fp (map np_neg close) 20 = pre @ [a, b]" "a < length close" "b < length close"
  shows "\<exists>r. is_double_bottom fp close = Inr r"
  using assms within_3_percent_np [of "pre @ [a, b]" pre a b close]
  by (auto simp: is_double_bottom_def Let_def)

lemma double_top_total:
  assumes "\<forall>i\<in>set (fp close 20). i < length close"
  shows "\<exists>r. is_double_top fp close = Inr r"
proof (cases "2 \<le> length (fp close 20)")
  case True
  then obtain pre a b where ps: "fp close 20 = pre @ [a, b]"
    using last_two by blast
  with assms have "a < length close" "b < length close" by simp_all
  with ps show ?thesis by (rule double_top_np)
next
  case False
  then show ?thesis by (auto simp: double_short)
qed

lemma double_bottom_total:
  assumes "\<forall>i\<in>set (fp (map np_neg close) 20). i < length close"
  shows "\<exists>r. is_double_bottom fp close = Inr r"
proof (cases "2 \<le> length (fp (map np_neg close) 20)")
  case True
  then obtain pre a b where ps: "fp (map np_neg close) 20 = pre @ [a, b]"
    using last_two by blast
  with assms have "a < length close" "b < length close" by simp_all
  with ps show ?thesis by (rule double_bottom_np)
next
  case False
  then show ?thesis by (auto simp: double_short)
qed

lemma hs_prices_patterns:
  "is_head_and_shoulders spec_find_peaks (map Fin hs_prices) = Inr True"
  "is_double_top spec_find_peaks (map Fin hs_prices) = Inr False"
  "is_double_bottom spec_find_peaks (map Fin hs_prices) = Inr True"
  using hs_last3 [of spec_find_peaks "map Fin hs_prices" "[]" 10 30 50]
    double_top_last2 [of spec_find_peaks "map Fin hs_prices" "[10]" 30 50]
    double_bottom_last2 [of spec_find_peaks "map Fin hs_prices" "[]" 20 40]
  by (simp_all add: hs_prices_peaks hs_prices_troughs hs_prices_length hs_prices_nth np_gt_def
      round64_zero round64_integers round64_quotients round64_literal del: map_map)

text \<open>
  C10. Whenever \<open>identify_chart_patterns\<close> returns a list, the list has no duplicate,
  it is a subsequence of "Head and Shoulders", "Double Top", "Double Bottom" in this
  order, and each label is in it exactly when its rule returned true. It returns a
  list whenever the detected indices are indices of the series.
\<close>

theorem identify_chart_patterns_order:
  "(identify_chart_patterns fp close = Inr ps \<longrightarrow>
      distinct ps \<and>
      subseq ps [''Head and Shoulders'', ''Double Top'', ''Double Bottom''] \<and>
      (''Head and Shoulders'' \<in> set ps \<longleftrightarrow> is_head_and_shoulders fp close = Inr True) \<and>
      (''Double Top'' \<in> set ps \<longleftrightarrow> is_double_top fp close = Inr True) \<and>
      (''Double Bottom'' \<in> set ps \<longleftrightarrow> is_double_bottom fp close = Inr True)) \<and>
   ((\<forall>i\<in>set (fp close 20). i < length close) \<and>
    (\<forall>i\<in>set (fp (map np_neg close) 20). i < length close) \<longrightarrow>
      (\<exists>ps. identify_chart_patterns fp close = Inr ps))"
proof (intro conjI impI)
  assume "identify_chart_patterns fp close = Inr ps"
  then obtain hs dt db where r: "is_head_and_shoulders fp close = Inr hs"
    "is_double_top fp close = Inr dt" "is_double_bottom fp close = Inr db"
    and ps: "ps = (if hs then [''Head and Shoulders''] else []) @
      (if dt then [''Double Top''] else []) @ (if db then [''Double Bottom''] else [])"
    by (auto simp: identify_chart_patterns_def Let_def bind_exn_Inr)
  show "distinct ps" by (simp add: ps)
  show "subseq ps [''Head and Shoulders'', ''Double Top'', ''Double Bottom'']"
    by (simp add: ps)
  show "''Head and Shoulders'' \<in> set ps \<longleftrightarrow> is_head_and_shoulders fp close = Inr True"
    by (simp add: ps r)
  show "''Double Top'' \<in> set ps \<longleftrightarrow> is_double_top fp close = Inr True"
    by (simp add: ps r)
  show "''Double Bottom'' \<in> set ps \<longleftrightarrow> is_double_bottom fp close = Inr True"
    by (simp add: ps r)
next
  assume v: "(\<forall>i\<in>set (fp close 20). i < length close) \<and>
    (\<forall>i\<in>set (fp (map np_neg close) 20). i < length close)"
  then obtain hs dt db where "is_head_and_shoulders fp close = Inr hs"
    "is_double_top fp close = Inr dt" "is_double_bottom fp close = Inr db"
    using head_and_shoulders_total [of fp close] double_top_total [of fp close]
      double_bottom_total [of fp close] by blast
  then show "\<exists>ps. identify_chart_patterns fp close = Inr ps"
    by (simp add: identify_chart_patterns_def Let_def)
qed

theorem identify_chart_patterns_order_witness:
  "identify_chart_patterns spec_find_peaks (map Fin hs_prices) =
     Inr [''Head and Shoulders'', ''Double Bottom''] \<and>
   spec_find_peaks (map Fin hs_prices) 20 = [10, 30, 50] \<and>
   spec_find_peaks (map np_neg (map Fin hs_prices)) 20 = [20, 40] \<and>
   length (map Fin hs_prices) = 61 \<and>
   distinct [''Head and Shoulders'', ''Double Bottom''] \<and>
   subseq [''Head and Shoulders'', ''Double Bottom'']
     [''Head and Shoulders'', ''Double Top'', ''Double Bottom''] \<and>
   is_head_and_shoulders spec_find_peaks (map Fin hs_prices) = Inr True \<and>
   is_double_top spec_find_peaks (map Fin hs_prices) \<noteq> Inr True \<and>
   is_double_bottom spec_find_peaks (map Fin hs_prices) = Inr True"
proof -
  have run: "identify_chart_patterns spec_find_peaks (map Fin hs_prices) =
     Inr [''Head and Shoulders'', ''Double Bottom'']"
    by (simp add: identify_chart_patterns_def hs_prices_patterns)
  from identify_chart_patterns_order
    [of spec_find_peaks "map Fin hs_prices" "[''Head and Shoulders'', ''Double Bottom'']"] run
  show ?thesis
    by (simp add: hs_prices_peaks hs_prices_troughs hs_prices_length del: map_map)
qed

section \<open>The analysis tool: levels, report and errors\<close>

lemma take_indices_Inr:
  "take_indices xs idx = Inr r \<longleftrightarrow> (\<forall>i\<in>set idx. i < length xs) \<and> r = map (\<lambda>i. xs ! i) idx"
  by (induction idx arbitrary: r) (auto simp: bind_exn_Inr getitem_nat)

lemma last3_eq: "last3 xs = rev (take 3 (rev xs))"
  by (simp add: last3_def take_rev)

lemma last3_short: "length xs < 3 \<Longrightarrow> last3 xs = xs"
  by (simp add: last3_def)

lemma levels_Inr:
  "levels close_prices idx = Inr lv \<longleftrightarrow>
     (\<forall>i\<in>set idx. i < length close_prices) \<and>
     lv = map (\<lambda>i. close_prices ! i) (rev (take 3 (rev idx)))"
proof (cases "3 \<le> length idx")
  case True
  then show ?thesis
    by (auto simp: levels_def bind_exn_Inr take_indices_Inr last3_eq rev_map take_map)
next
  case False
  then have "last3 idx = idx" by (simp add: last3_short)
  with False show ?thesis
    by (auto simp: levels_def take_indices_Inr simp flip: last3_eq)
qed

lemma tolist_or_empty_eq: "tolist_or_empty lv = PyList (map PyFloat lv)"
  by (simp add: tolist_or_empty_def)

lemma report_Inr:
  assumes "report L ticker history ind = Inr d"
  shows "\<exists>cp s50 s200 r m a sup res pats.
    levels (dropna (Close history)) (scipy_find_peaks L (map np_neg (dropna (Close history))) 20) = Inr sup \<and>
    levels (dropna (Close history)) (scipy_find_peaks L (dropna (Close history)) 20) = Inr res \<and>
    identify_chart_patterns (scipy_find_peaks L) (Close history) = Inr pats \<and>
    d = [(''ticker'', PyStr ticker), (''current_price'', PyFloat cp), (''sma_50'', s50),
         (''sma_200'', s200), (''rsi'', r), (''macd'', m), (''atr'', a),
         (''support_levels'', PyList (map PyFloat sup)),
         (''resistance_levels'', PyList (map PyFloat res)),
         (''identified_patterns'', PyList (map PyStr pats))]"
  using assms by (auto simp: report_def Let_def bind_exn_Inr tolist_or_empty_eq)

lemma run_try_Inr:
  assumes "run_try L ticker period = Inr d"
  shows "\<exists>history. yf_history L ticker period = Inr history \<and>
    (d = insufficient_data \<and> length (Close history) < 50 \<or>
     d = no_backend \<and> 50 \<le> length (Close history) \<or>
     50 \<le> length (Close history) \<and> (\<exists>ind. report L ticker history ind = Inr d))"
  using assms
  by (auto simp: run_try_def bind_exn_Inr split: if_splits option.splits backend.splits)

lemma dropna_finite: "dropna (map Fin xs) = map Fin xs"
  by (induction xs) (simp_all add: dropna_def)

lemma getitem_last: "xs \<noteq> [] \<Longrightarrow> getitem xs (- 1) = Inr (last xs)"
  using getitem_from_end [of 1 xs] by (cases xs) (simp_all add: last_conv_nth)

lemma current_const_column:
  assumes "c \<noteq> []"
  shows "current (const_column v c) = Inr (PyFloat (Fin v))"
proof -
  from assms obtain x r where c: "c = x # r" by (cases c) auto
  have "\<not> list_all isnull (const_column v c)"
    by (simp add: c const_column_def)
  moreover have "getitem (const_column v c) (- 1) = Inr (PyFloat (Fin v))"
    using assms by (simp add: getitem_last const_column_def last_map)
  ultimately show ?thesis by (simp add: current_def)
qed

lemma current_labels:
  assumes "0 < n"
  shows "current (replicate n (PyStr a)) = Inr (PyStr a)"
proof -
  from assms obtain m where n: "n = Suc m" by (cases n) auto
  have "\<not> list_all isnull (replicate n (PyStr a))"
    by (simp add: n)
  moreover have "getitem (replicate n (PyStr a)) (- 1) = Inr (PyStr a)"
    using assms by (simp add: getitem_last)
  ultimately show ?thesis by (simp add: current_def)
qed

lemma hs_prices_last: "getitem (map Fin hs_prices) (- 1) = Inr (Fin 90)"
proof -
  have "hs_prices ! 60 = 90" unfolding hs_prices_eq by simp
  then show ?thesis
    using getitem_from_end [of 1 "map Fin hs_prices"] by (simp add: hs_prices_length)
qed

lemma hs_prices_levels:
  "levels (map Fin hs_prices) [20, 40] = Inr [Fin 90, Fin 90]"
  "levels (map Fin hs_prices) [10, 30, 50] = Inr [Fin 100, Fin 120, Fin 100]"
  by (simp_all add: levels_Inr hs_prices_length hs_prices_nth)

lemma hs_prices_identify:
  "identify_chart_patterns spec_find_peaks (map Fin hs_prices) =
     Inr [''Head and Shoulders'', ''Double Bottom'']"
  by (simp add: identify_chart_patterns_def hs_prices_patterns)

lemma hs_prices_nonempty: "hs_prices \<noteq> []"
  using hs_prices_length by auto

lemma demo_report:
  assumes "current (MACD ind) = Inr m"
    "current (SMA_50 ind) = Inr s50" "current (SMA_200 ind) = Inr s200"
    "current (RSI ind) = Inr r" "current (ATR ind) = Inr a"
  shows "report (demo_libs b f) ticker (frame_of (map Fin hs_prices)) ind =
    Inr [(''ticker'', PyStr ticker), (''current_price'', PyFloat (Fin 90)),
         (''sma_50'', s50), (''sma_200'', s200), (''rsi'', r), (''macd'', m), (''atr'', a),
         (''support_levels'', PyList [PyFloat (Fin 90), PyFloat (Fin 90)]),
         (''resistance_levels'', PyList [PyFloat (Fin 100), PyFloat (Fin 120), PyFloat (Fin 100)]),
         (''identified_patterns'', PyList [PyStr ''Head and Shoulders'', PyStr ''Double Bottom''])]"
  using assms
  by (simp add: report_def frame_of_def demo_libs_def Let_def dropna_finite hs_prices_last
      hs_prices_peaks hs_prices_troughs hs_prices_levels hs_prices_identify tolist_or_empty_def
      del: map_map)

lemma demo_run_ta:
  "run (demo_libs (Some Ta) (Inr (frame_of (map Fin hs_prices)))) ticker period =
    Inr [(''ticker'', PyStr ticker), (''current_price'', PyFloat (Fin 90)),
         (''sma_50'', PyFloat (Fin 100)), (''sma_200'', PyFloat (Fin 100)),
         (''rsi'', PyFloat (Fin 50)), (''macd'', PyFloat (Fin 3)), (''atr'', PyFloat (Fin 1)),
         (''support_levels'', PyList [PyFloat (Fin 90), PyFloat (Fin 90)]),
         (''resistance_levels'', PyList [PyFloat (Fin 100), PyFloat (Fin 120), PyFloat (Fin 100)]),
         (''identified_patterns'', PyList [PyStr ''Head and Shoulders'', PyStr ''Double Bottom''])]"
proof -
  let ?L = "demo_libs (Some Ta) (Inr (frame_of (map Fin hs_prices)))"
  have ind: "indicators_ta ?L (frame_of (map Fin hs_prices)) =
    Inr \<lparr>SMA_50 = const_column 100 (map Fin hs_prices),
         SMA_200 = const_column 100 (map Fin hs_prices),
         RSI = const_column 50 (map Fin hs_prices),
         MACD = const_column 3 (map Fin hs_prices),
         MACD_SIGNAL = const_column 2 (map Fin hs_prices),
         MACD_HIST = const_column 1 (map Fin hs_prices),
         ATR = const_column 1 (map Fin hs_prices)\<rparr>"
    by (simp add: indicators_ta_def demo_libs_def frame_of_def)
  have fetch: "yf_history ?L ticker period = Inr (frame_of (map Fin hs_prices))"
    "ta_backend ?L = Some Ta"
    by (simp_all add: demo_libs_def)
  have len: "Close (frame_of (map Fin hs_prices)) \<noteq> []"
    "\<not> length (Close (frame_of (map Fin hs_prices))) < 50"
    using hs_prices_nonempty by (simp_all add: frame_of_def hs_prices_length)
  have "run_try ?L ticker period = report ?L ticker (frame_of (map Fin hs_prices))
    \<lparr>SMA_50 = const_column 100 (map Fin hs_prices),
         SMA_200 = const_column 100 (map Fin hs_prices),
         RSI = const_column 50 (map Fin hs_prices),
         MACD = const_column 3 (map Fin hs_prices),
         MACD_SIGNAL = const_column 2 (map Fin hs_prices),
         MACD_HIST = const_column 1 (map Fin hs_prices),
         ATR = const_column 1 (map Fin hs_prices)\<rparr>"
    unfolding run_try_def fetch using len by (simp add: ind)
  then show ?thesis
    using hs_prices_nonempty
    by (simp add: run_def demo_report current_const_column)
qed

lemma error_not_report_key: "''error'' \<notin> set report_keys"
  by (simp add: report_keys_def)

lemma report_shape:
  assumes "report L ticker history ind = Inr d"
  shows "map fst d = report_keys \<and> map_of d ''ticker'' = Some (PyStr ticker)"
  using report_Inr [OF assms] by (auto simp: report_keys_def)

lemma run_handles:
  "run_try L ticker period = Inl e \<Longrightarrow>
     \<exists>msg. msg \<noteq> [] \<and> run L ticker period = Inr [(''error'', PyStr msg)]"
  by (cases e) (simp_all add: run_def)

text \<open>
  C1. For every environment, ticker and period, \<open>_run\<close> returns a dictionary and no
  exception leaves it. The dictionary is either an error dictionary, with the single
  key "error" and a message, or a report with exactly the ten report keys, the ticker
  among them; "error" is not a report key, so the two never mix. Whenever the body of
  the \<open>try\<close> statement raises, the result is an error dictionary with a non-empty
  message. Exceptions are the subclasses of \<open>Exception\<close>.
\<close>

theorem run_returns_structured_value:
  "(\<exists>d. run L ticker period = Inr d \<and>
        ((\<exists>msg. d = [(''error'', PyStr msg)]) \<or>
         (map fst d = report_keys \<and> map_of d ''ticker'' = Some (PyStr ticker)))) \<and>
   (\<forall>e. run_try L ticker period = Inl e \<longrightarrow>
        (\<exists>msg. msg \<noteq> [] \<and> run L ticker period = Inr [(''error'', PyStr msg)])) \<and>
   ''error'' \<notin> set report_keys"
proof (intro conjI allI impI)
  show "\<exists>d. run L ticker period = Inr d \<and>
        ((\<exists>msg. d = [(''error'', PyStr msg)]) \<or>
         (map fst d = report_keys \<and> map_of d ''ticker'' = Some (PyStr ticker)))"
  proof (cases "run_try L ticker period")
    case (Inl e)
    then show ?thesis using run_handles [of L ticker period e] by auto
  next
    case (Inr d)
    then have r: "run L ticker period = Inr d" by (simp add: run_def)
    from run_try_Inr [OF Inr] obtain history where
      "d = insufficient_data \<or> d = no_backend \<or> (\<exists>ind. report L ticker history ind = Inr d)"
      by blast
    then show ?thesis
      using r report_shape [of L ticker history _ d]
      by (auto simp: insufficient_data_def no_backend_def)
  qed
next
  fix e assume "run_try L ticker period = Inl e"
  then show "\<exists>msg. msg \<noteq> [] \<and> run L ticker period = Inr [(''error'', PyStr msg)]"
    by (rule run_handles)
next
  show "''error'' \<notin> set report_keys" by (rule error_not_report_key)
qed

theorem run_returns_structured_value_witness:
  "run_try (demo_libs (Some Ta) (Inl (OtherException ''No data found''))) ''AAPL'' ''1y'' =
     Inl (OtherException ''No data found'') \<and>
   (\<exists>msg. msg \<noteq> [] \<and>
      run (demo_libs (Some Ta) (Inl (OtherException ''No data found''))) ''AAPL'' ''1y'' =
        Inr [(''error'', PyStr msg)])"
proof -
  have rt: "run_try (demo_libs (Some Ta) (Inl (OtherException ''No data found''))) ''AAPL'' ''1y'' =
     Inl (OtherException ''No data found'')"
    by (simp add: run_try_def demo_libs_def)
  with run_returns_structured_value
    [of "demo_libs (Some Ta) (Inl (OtherException ''No data found''))" "''AAPL''" "''1y''"]
  show ?thesis by blast
qed

lemma run_not_insufficient:
  assumes "yf_history L ticker period = Inr history" "\<not> length (Close history) < 50"
  shows "run L ticker period \<noteq> Inr insufficient_data"
proof (cases "run_try L ticker period")
  case (Inl e)
  then show ?thesis
    by (cases e) (simp_all add: run_def insufficient_data_def)
next
  case (Inr d)
  then have r: "run L ticker period = Inr d" by (simp add: run_def)
  from run_try_Inr [OF Inr] assms have
    "d = no_backend \<or> (\<exists>ind. report L ticker history ind = Inr d)"
    by auto
  then have "d \<noteq> insufficient_data"
    using report_shape [of L ticker history _ d]
    by (auto simp: insufficient_data_def no_backend_def report_keys_def)
  with r show ?thesis by simp
qed

text \<open>
  C2. When the market data provider returns a series, \<open>_run\<close> returns the
  insufficient-data error exactly when the series has fewer than 50 bars: it does for
  every series of at most 49 bars, the empty one included, and does not for a series
  of 50 bars or more.
\<close>

theorem insufficient_data_boundary:
  "yf_history L ticker period = Inr history \<longrightarrow>
     (run L ticker period = Inr insufficient_data) = (length (Close history) < 50)"
proof
  assume h: "yf_history L ticker period = Inr history"
  show "(run L ticker period = Inr insufficient_data) = (length (Close history) < 50)"
  proof (cases "length (Close history) < 50")
    case True
    then have "run_try L ticker period = Inr insufficient_data"
      by (simp add: run_try_def h)
    with True show ?thesis by (simp add: run_def)
  next
    case False
    with run_not_insufficient [OF h] show ?thesis by simp
  qed
qed

theorem insufficient_data_boundary_witness:
  "length (Close (frame_of (replicate 49 (Fin 100)))) = 49 \<and>
   run (demo_libs (Some Ta) (Inr (frame_of (replicate 49 (Fin 100))))) ''AAPL'' ''1y'' =
     Inr insufficient_data \<and>
   length (Close (frame_of [])) = 0 \<and>
   run (demo_libs (Some Ta) (Inr (frame_of []))) ''AAPL'' ''1y'' = Inr insufficient_data \<and>
   length (Close (frame_of (replicate 50 (Fin 100)))) = 50 \<and>
   run (demo_libs (Some Ta) (Inr (frame_of (replicate 50 (Fin 100))))) ''AAPL'' ''1y'' \<noteq>
     Inr insufficient_data"
  using insufficient_data_boundary
      [of "demo_libs (Some Ta) (Inr (frame_of (replicate 49 (Fin 100))))" "''AAPL''" "''1y''"
        "frame_of (replicate 49 (Fin 100))"]
    insufficient_data_boundary
      [of "demo_libs (Some Ta) (Inr (frame_of []))" "''AAPL''" "''1y''" "frame_of []"]
    insufficient_data_boundary
      [of "demo_libs (Some Ta) (Inr (frame_of (replicate 50 (Fin 100))))" "''AAPL''" "''1y''"
        "frame_of (replicate 50 (Fin 100))"]
  by (simp add: demo_libs_def frame_of_def)

text \<open>
  C5. With the detected indices in the series, the levels are the prices at the last
  three indices in index order, and at all of them when there are fewer than three;
  a list of levels has at most three elements, and no index gives the empty list and
  no error. In every report that \<open>_run\<close> returns, "support_levels" is this list for
  the troughs and "resistance_levels" this list for the peaks of the close prices
  without their missing values.
\<close>

theorem support_resistance_levels:
  "((\<forall>i\<in>set idx. i < length close_prices) \<longrightarrow>
      levels close_prices idx = Inr (map (\<lambda>i. close_prices ! i) (rev (take 3 (rev idx))))) \<and>
   (levels close_prices idx = Inr lv \<longrightarrow>
      length lv \<le> 3 \<and> lv = map (\<lambda>i. close_prices ! i) (rev (take 3 (rev idx))) \<and>
      (length idx < 3 \<longrightarrow> lv = map (\<lambda>i. close_prices ! i) idx)) \<and>
   levels close_prices [] = Inr [] \<and>
   tolist_or_empty [] = PyList [] \<and>
   (run L ticker period = Inr d \<and> map_of d ''error'' = None \<longrightarrow>
      (\<exists>history. yf_history L ticker period = Inr history \<and>
         map_of d ''support_levels'' =
           Some (PyList (map (\<lambda>i. PyFloat (dropna (Close history) ! i))
             (rev (take 3 (rev (scipy_find_peaks L (map np_neg (dropna (Close history))) 20)))))) \<and>
         map_of d ''resistance_levels'' =
           Some (PyList (map (\<lambda>i. PyFloat (dropna (Close history) ! i))
             (rev (take 3 (rev (scipy_find_peaks L (dropna (Close history)) 20))))))))"
proof (intro conjI impI)
  assume "\<forall>i\<in>set idx. i < length close_prices"
  then show "levels close_prices idx = Inr (map (\<lambda>i. close_prices ! i) (rev (take 3 (rev idx))))"
    by (simp add: levels_Inr)
next
  assume "levels close_prices idx = Inr lv"
  then have lv: "lv = map (\<lambda>i. close_prices ! i) (rev (take 3 (rev idx)))"
    by (simp add: levels_Inr)
  show "length lv \<le> 3" by (simp add: lv)
  show "lv = map (\<lambda>i. close_prices ! i) (rev (take 3 (rev idx)))" by (rule lv)
  assume "length idx < 3"
  then show "lv = map (\<lambda>i. close_prices ! i) idx" by (simp add: lv)
next
  show "levels close_prices [] = Inr []" by (simp add: levels_def)
next
  show "tolist_or_empty [] = PyList []" by (simp add: tolist_or_empty_def)
next
  assume a: "run L ticker period = Inr d \<and> map_of d ''error'' = None"
  then obtain d' where rt: "run_try L ticker period = Inr d'"
    by (cases "run_try L ticker period") (auto simp: run_def split: exn.splits)
  with a have dd: "d' = d" by (simp add: run_def)
  from run_try_Inr [OF rt] a dd obtain history ind where
    h: "yf_history L ticker period = Inr history" and r: "report L ticker history ind = Inr d"
    by (auto simp: insufficient_data_def no_backend_def)
  from report_Inr [OF r] obtain sup res where
    s: "levels (dropna (Close history))
         (scipy_find_peaks L (map np_neg (dropna (Close history))) 20) = Inr sup"
    and t: "levels (dropna (Close history))
         (scipy_find_peaks L (dropna (Close history)) 20) = Inr res"
    and m: "map_of d ''support_levels'' = Some (PyList (map PyFloat sup))"
      "map_of d ''resistance_levels'' = Some (PyList (map PyFloat res))"
    by auto
  from s t m h
  show "\<exists>history. yf_history L ticker period = Inr history \<and>
         map_of d ''support_levels'' =
           Some (PyList (map (\<lambda>i. PyFloat (dropna (Close history) ! i))
             (rev (take 3 (rev (scipy_find_peaks L (map np_neg (dropna (Close history))) 20)))))) \<and>
         map_of d ''resistance_levels'' =
           Some (PyList (map (\<lambda>i. PyFloat (dropna (Close history) ! i))
             (rev (take 3 (rev (scipy_find_peaks L (dropna (Close history)) 20))))))"
    by (auto simp: levels_Inr comp_def)
qed

theorem support_resistance_levels_witness:
  "length (map Fin hs_prices) = 61 \<and>
   levels (map Fin hs_prices) [2, 20, 30, 40, 50] = Inr [Fin 120, Fin 90, Fin 100] \<and>
   levels (map Fin hs_prices) [20] = Inr [Fin 90] \<and>
   (\<exists>d. run (demo_libs (Some Ta) (Inr (frame_of (map Fin hs_prices)))) ''AAPL'' ''1y'' = Inr d \<and>
      map_of d ''error'' = None \<and>
      map_of d ''support_levels'' = Some (PyList [PyFloat (Fin 90), PyFloat (Fin 90)]) \<and>
      map_of d ''resistance_levels'' =
        Some (PyList [PyFloat (Fin 100), PyFloat (Fin 120), PyFloat (Fin 100)]))"
proof -
  let ?L = "demo_libs (Some Ta) (Inr (frame_of (map Fin hs_prices)))"
  have five: "levels (map Fin hs_prices) [2, 20, 30, 40, 50] = Inr [Fin 120, Fin 90, Fin 100]"
    using support_resistance_levels [THEN conjunct1, of "[2, 20, 30, 40, 50]" "map Fin hs_prices"]
    by (simp add: hs_prices_length hs_prices_nth)
  have one: "levels (map Fin hs_prices) [20] = Inr [Fin 90]"
    using support_resistance_levels [THEN conjunct1, of "[20]" "map Fin hs_prices"]
    by (simp add: hs_prices_length hs_prices_nth)
  obtain d where d: "run ?L ''AAPL'' ''1y'' = Inr d" and e: "map_of d ''error'' = None"
    by (simp add: demo_run_ta)
  from support_resistance_levels
    [THEN conjunct2, THEN conjunct2, THEN conjunct2, THEN conjunct2, rule_format,
      of ?L "''AAPL''" "''1y''" d] d e
  obtain history where h: "yf_history ?L ''AAPL'' ''1y'' = Inr history"
    and s: "map_of d ''support_levels'' =
           Some (PyList (map (\<lambda>i. PyFloat (dropna (Close history) ! i))
             (rev (take 3 (rev (scipy_find_peaks ?L (map np_neg (dropna (Close history))) 20))))))"
    and r: "map_of d ''resistance_levels'' =
           Some (PyList (map (\<lambda>i. PyFloat (dropna (Close history) ! i))
             (rev (take 3 (rev (scipy_find_peaks ?L (dropna (Close history)) 20))))))"
    by blast
  from h have hist: "history = frame_of (map Fin hs_prices)"
    by (simp add: demo_libs_def)
  have fp: "scipy_find_peaks ?L = spec_find_peaks" by (simp add: demo_libs_def)
  have cp: "dropna (Close history) = map Fin hs_prices"
    by (simp add: hist frame_of_def dropna_finite)
  have s': "map_of d ''support_levels'' = Some (PyList [PyFloat (Fin 90), PyFloat (Fin 90)])"
    using s unfolding cp fp hs_prices_troughs
    by (simp add: hs_prices_nth hs_prices_length)
  have r': "map_of d ''resistance_levels'' =
        Some (PyList [PyFloat (Fin 100), PyFloat (Fin 120), PyFloat (Fin 100)])"
    using r unfolding cp fp hs_prices_peaks
    by (simp add: hs_prices_nth hs_prices_length)
  from five one d e s' r' show ?thesis by (simp add: hs_prices_length)
qed

section \<open>The extrema detector: minimum distance\<close>

lemma candidates_member:
  "c \<in> set (candidates i prev xs) \<Longrightarrow> i \<le> c \<and> c < i + length xs"
proof (induction xs arbitrary: i prev)
  case Nil
  then show ?case by simp
next
  case (Cons x xs)
  show ?case
  proof (cases "c = i")
    case True
    then show ?thesis by simp
  next
    case False
    with Cons.prems have "c \<in> set (candidates (Suc i) x xs)"
      by (auto split: if_splits)
    from Cons.IH [OF this] show ?thesis by simp
  qed
qed

lemma candidates_bounds: "\<forall>c\<in>set (candidates i prev xs). i \<le> c \<and> c < i + length xs"
  using candidates_member by blast

lemma candidates_ascending: "sorted_wrt (<) (candidates i prev xs)"
proof (induction xs arbitrary: i prev)
  case Nil
  show ?case by simp
next
  case (Cons x xs)
  have "\<forall>c\<in>set (candidates (Suc i) x xs). i < c"
    using candidates_bounds [of "Suc i" x xs] by auto
  with Cons show ?case by simp
qed

lemma candidate_peaks_ascending: "sorted_wrt (<) (candidate_peaks xs)"
  by (cases xs) (simp_all add: candidate_peaks_def candidates_ascending)

lemma candidate_peaks_in_range: "\<forall>c\<in>set (candidate_peaks xs). c < length xs"
proof (cases xs)
  case Nil
  then show ?thesis by (simp add: candidate_peaks_def)
next
  case (Cons x rest)
  then show ?thesis
    using candidates_bounds [of 1 x rest] by (auto simp: candidate_peaks_def)
qed

lemma keep_distant_subset: "set (keep_distant xs d kept cs) \<subseteq> set kept \<union> set cs"
  by (induction xs d kept cs rule: keep_distant.induct) auto

lemma keep_distant_spaced:
  assumes "sorted_wrt (\<lambda>a b. b + d \<le> a) kept" "sorted_wrt (<) cs"
    "\<forall>c\<in>set cs. \<forall>k\<in>set kept. k < c"
  shows "sorted_wrt (\<lambda>a b. a + d \<le> b) (keep_distant xs d kept cs)"
  using assms
proof (induction xs d kept cs rule: keep_distant.induct)
  case (1 xs d kept)
  then show ?case by (simp add: sorted_wrt_rev)
next
  case (2 xs d c cs)
  then show ?case by simp
next
  case (3 xs d k kept c cs)
  from "3.prems" have kc: "k < c" and rest: "\<forall>k'\<in>set kept. k' + d \<le> k"
    and skept: "sorted_wrt (\<lambda>a b. b + d \<le> a) kept" and scs: "sorted_wrt (<) cs"
    and above: "\<forall>c'\<in>set cs. c < c'"
    by auto
  show ?case
  proof (cases "c - k < d")
    case close: True
    show ?thesis
    proof (cases "np_gt (xs ! c) (xs ! k)")
      case True
      have "sorted_wrt (\<lambda>a b. b + d \<le> a) (c # kept)"
        using rest kc skept by auto
      moreover have "\<forall>c'\<in>set cs. \<forall>k'\<in>set (c # kept). k' < c'"
        using above rest kc by fastforce
      ultimately show ?thesis
        using "3.IH"(1) [OF close True] scs close True by simp
    next
      case False
      have "\<forall>c'\<in>set cs. \<forall>k'\<in>set (k # kept). k' < c'"
        using above rest kc by fastforce
      then show ?thesis
        using "3.IH"(2) [OF close False] "3.prems"(1) scs close False by simp
    qed
  next
    case far: False
    have "sorted_wrt (\<lambda>a b. b + d \<le> a) (c # k # kept)"
      using rest kc skept far by auto
    moreover have "\<forall>c'\<in>set cs. \<forall>k'\<in>set (c # k # kept). k' < c'"
      using above rest kc by fastforce
    ultimately show ?thesis
      using "3.IH"(3) [OF far] scs far by simp
  qed
qed

lemma spec_find_peaks_spaced: "sorted_wrt (\<lambda>a b. a + d \<le> b) (spec_find_peaks xs d)"
  unfolding spec_find_peaks_def
  by (rule keep_distant_spaced) (simp_all add: candidate_peaks_ascending)

lemma spec_find_peaks_in_range: "\<forall>i\<in>set (spec_find_peaks xs d). i < length xs"
  using keep_distant_subset [of xs d "[]" "candidate_peaks xs"] candidate_peaks_in_range [of xs]
  by (auto simp: spec_find_peaks_def)

lemma sorted_wrt_distinct_pair:
  "sorted_wrt R xs \<Longrightarrow> a \<in> set xs \<Longrightarrow> b \<in> set xs \<Longrightarrow> a \<noteq> b \<Longrightarrow> R a b \<or> R b a"
  by (induction xs) auto

lemma set_merge_points: "set (merge_points ps qs) = set ps \<union> set qs"
  by (induction ps qs rule: merge_points.induct) auto

text \<open>
  C6. In the output of the extrema detector of the specification, for every series
  and every minimum distance (20 bars in the tool), two distinct points of the same
  kind are at least the minimum distance apart.
\<close>

theorem extrema_min_distance:
  "\<forall>p\<in>set (find_extrema closePrices minDistance).
     \<forall>q\<in>set (find_extrema closePrices minDistance).
       kind p = kind q \<and> p \<noteq> q \<longrightarrow>
         index p + minDistance \<le> index q \<or> index q + minDistance \<le> index p"
proof (intro ballI impI)
  fix p q
  assume p: "p \<in> set (find_extrema closePrices minDistance)"
    and q: "q \<in> set (find_extrema closePrices minDistance)"
    and pq: "kind p = kind q \<and> p \<noteq> q"
  let ?peaks = "spec_find_peaks closePrices minDistance"
  let ?troughs = "spec_find_peaks (map np_neg closePrices) minDistance"
  from p have p': "(kind p = Peak \<and> index p \<in> set ?peaks \<and> price p = closePrices ! index p)
      \<or> (kind p = Trough \<and> index p \<in> set ?troughs \<and> price p = closePrices ! index p)"
    by (auto simp: find_extrema_def set_merge_points)
  from q have q': "(kind q = Peak \<and> index q \<in> set ?peaks \<and> price q = closePrices ! index q)
      \<or> (kind q = Trough \<and> index q \<in> set ?troughs \<and> price q = closePrices ! index q)"
    by (auto simp: find_extrema_def set_merge_points)
  from p' q' pq have ne: "index p \<noteq> index q"
    by (cases p; cases q) auto
  from p' q' pq have "(index p \<in> set ?peaks \<and> index q \<in> set ?peaks)
      \<or> (index p \<in> set ?troughs \<and> index q \<in> set ?troughs)"
    by auto
  then show "index p + minDistance \<le> index q \<or> index q + minDistance \<le> index p"
    using ne sorted_wrt_distinct_pair [OF spec_find_peaks_spaced, of "index p" _ _ "index q"]
    by blast
qed

lemma hs_extrema:
  "find_extrema (map Fin hs_prices) 20 =
     [\<lparr>index = 10, price = Fin 100, kind = Peak\<rparr>, \<lparr>index = 20, price = Fin 90, kind = Trough\<rparr>,
      \<lparr>index = 30, price = Fin 120, kind = Peak\<rparr>, \<lparr>index = 40, price = Fin 90, kind = Trough\<rparr>,
      \<lparr>index = 50, price = Fin 100, kind = Peak\<rparr>]"
  unfolding find_extrema_def hs_prices_peaks hs_prices_troughs
  by (simp add: hs_prices_nth hs_prices_length)

theorem extrema_min_distance_witness:
  "find_extrema (map Fin hs_prices) 20 =
     [\<lparr>index = 10, price = Fin 100, kind = Peak\<rparr>, \<lparr>index = 20, price = Fin 90, kind = Trough\<rparr>,
      \<lparr>index = 30, price = Fin 120, kind = Peak\<rparr>, \<lparr>index = 40, price = Fin 90, kind = Trough\<rparr>,
      \<lparr>index = 50, price = Fin 100, kind = Peak\<rparr>] \<and>
   (index \<lparr>index = 10, price = Fin 100, kind = Peak\<rparr> + 20
      \<le> index \<lparr>index = 30, price = Fin 120, kind = Peak\<rparr> \<or>
    index \<lparr>index = 30, price = Fin 120, kind = Peak\<rparr> + 20
      \<le> index \<lparr>index = 10, price = Fin 100, kind = Peak\<rparr>)"
proof -
  have p: "\<lparr>index = 10, price = Fin 100, kind = Peak\<rparr> \<in> set (find_extrema (map Fin hs_prices) 20)"
    and q: "\<lparr>index = 30, price = Fin 120, kind = Peak\<rparr> \<in> set (find_extrema (map Fin hs_prices) 20)"
    by (simp_all add: hs_extrema)
  from extrema_min_distance [rule_format, OF p q] hs_extrema
  show ?thesis by simp
qed

section \<open>The relative strength index: bounds\<close>

lemma gains_nonneg: "\<forall>x\<in>set (gains closes). 0 \<le> x"
  by (simp add: gains_def)

lemma losses_nonneg: "\<forall>x\<in>set (losses closes). 0 \<le> x"
  by (simp add: losses_def)

lemma wilder_from_nonneg:
  "0 < n \<Longrightarrow> 0 \<le> avg \<Longrightarrow> \<forall>x\<in>set xs. 0 \<le> x \<Longrightarrow> \<forall>y\<in>set (wilder_from n avg xs). 0 \<le> y"
proof (induction xs arbitrary: avg)
  case Nil
  show ?case by simp
next
  case (Cons x xs)
  from Cons.prems have "0 \<le> avg * (real n - 1)" by simp
  with Cons.prems have a: "0 \<le> (avg * (real n - 1) + x) / real n" by simp
  from Cons.IH [OF Cons.prems(1) a] Cons.prems a show ?case by (simp add: Let_def)
qed

lemma wilder_nonneg:
  assumes "\<forall>x\<in>set xs. 0 \<le> x"
  shows "\<forall>y\<in>set (wilder n xs). 0 \<le> y"
proof (cases "n = 0 \<or> length xs < n")
  case True
  then show ?thesis by (simp add: wilder_def)
next
  case False
  have "\<forall>x\<in>set (take n xs). 0 \<le> x" using assms by (meson in_set_takeD)
  then have f: "0 \<le> sum_list (take n xs) / real n"
    by (simp add: sum_list_nonneg)
  have "\<forall>x\<in>set (drop n xs). 0 \<le> x" using assms by (meson in_set_dropD)
  with wilder_from_nonneg [of n "sum_list (take n xs) / real n" "drop n xs"] f False
  show ?thesis by (simp add: wilder_def Let_def)
qed

lemma rsi_value_bounds:
  assumes "0 \<le> g" "0 \<le> l"
  shows "0 \<le> rsi_value g l \<and> rsi_value g l \<le> 100"
proof (cases "l = 0")
  case True
  then show ?thesis by (simp add: rsi_value_def)
next
  case False
  with assms have "0 < l" by simp
  with assms have "1 \<le> 1 + g / l" by simp
  then have "0 < 100 / (1 + g / l)" "100 / (1 + g / l) \<le> 100"
    by (simp_all add: divide_le_eq)
  with False show ?thesis by (simp add: rsi_value_def)
qed

lemma length_wilder_from: "length (wilder_from n avg xs) = length xs"
  by (induction xs arbitrary: avg) (simp_all add: Let_def)

lemma length_wilder: "0 < n \<Longrightarrow> n \<le> length xs \<Longrightarrow> length (wilder n xs) = length xs - n + 1"
  by (simp add: wilder_def Let_def length_wilder_from)

lemma length_changes: "length (changes closes) = length closes - 1"
  by (simp add: changes_def)

text \<open>
  C8. Every defined value of the RSI of the specification lies between 0 and 100; the
  value is 100 - 100 / (1 + RS) with RS the average gain over the average loss, and
  100 when the average loss is zero, where nothing is divided. On a series longer than
  the window the RSI has one entry for each bar, undefined exactly for the bars of the
  warm-up.
\<close>

theorem rsi_bounded:
  "(\<forall>v\<in>set (rsi n closes). \<forall>r. v = Some r \<longrightarrow> 0 \<le> r \<and> r \<le> 100) \<and>
   rsi_value avg_gain 0 = 100 \<and>
   (avg_loss \<noteq> 0 \<longrightarrow> rsi_value avg_gain avg_loss = 100 - 100 / (1 + avg_gain / avg_loss)) \<and>
   (0 < n \<and> n < length closes \<longrightarrow>
      length (rsi n closes) = length closes \<and>
      (\<forall>i<length closes. (rsi n closes ! i = None) = (i < n)))"
proof (intro conjI ballI allI impI)
  fix v r
  assume v: "v \<in> set (rsi n closes)" and s: "v = Some r"
  then obtain g l where gl: "(g, l) \<in> set (zip (wilder n (gains closes)) (wilder n (losses closes)))"
    and r: "r = rsi_value g l"
    by (auto simp: rsi_def)
  from gl have "g \<in> set (wilder n (gains closes))" "l \<in> set (wilder n (losses closes))"
    by (auto dest: set_zip_leftD set_zip_rightD)
  then have "0 \<le> g" "0 \<le> l"
    using wilder_nonneg [OF gains_nonneg, of n closes] wilder_nonneg [OF losses_nonneg, of n closes]
    by auto
  then show "0 \<le> r" "r \<le> 100"
    using rsi_value_bounds [of g l] r by simp_all
next
  show "rsi_value avg_gain 0 = 100" by (simp add: rsi_value_def)
next
  assume "avg_loss \<noteq> 0"
  then show "rsi_value avg_gain avg_loss = 100 - 100 / (1 + avg_gain / avg_loss)"
    by (simp add: rsi_value_def)
next
  assume n: "0 < n \<and> n < length closes"
  then have "n \<le> length (gains closes)" "n \<le> length (losses closes)"
    by (auto simp: gains_def losses_def length_changes)
  with n have lw: "length (wilder n (gains closes)) = length closes - n"
    "length (wilder n (losses closes)) = length closes - n"
    using length_wilder [of n "gains closes"] length_wilder [of n "losses closes"]
    by (auto simp: gains_def losses_def length_changes)
  from n lw show len: "length (rsi n closes) = length closes"
    by (simp add: rsi_def)
  fix i assume "i < length closes"
  with n lw show "(rsi n closes ! i = None) = (i < n)"
    by (auto simp: rsi_def nth_append case_prod_beta)
qed

lemma rsi_small: "rsi 2 [10, 12, 11, 13] = [None, None, Some (200 / 3), Some (600 / 7)]"
  by (simp add: rsi_def wilder_def gains_def losses_def changes_def rsi_value_def Let_def
      numeral_2_eq_2)

lemma rsi_rising:
  "rsi 14 [1, 2, 3, 4, 5, 6, 7, 8, 9, 10, 11, 12, 13, 14, 15, 16] =
     [None, None, None, None, None, None, None, None, None, None, None, None, None, None,
      Some 100, Some 100]"
  by (simp add: rsi_def wilder_def gains_def losses_def changes_def rsi_value_def Let_def
      take_Cons_numeral drop_Cons_numeral)

theorem rsi_bounded_witness:
  "rsi 2 [10, 12, 11, 13] = [None, None, Some (200 / 3), Some (600 / 7)] \<and>
   (0::real) \<le> 200 / 3 \<and> (200::real) / 3 \<le> 100 \<and>
   rsi 14 [1, 2, 3, 4, 5, 6, 7, 8, 9, 10, 11, 12, 13, 14, 15, 16] =
     [None, None, None, None, None, None, None, None, None, None, None, None, None, None,
      Some 100, Some 100] \<and>
   length (rsi 14 [1, 2, 3, 4, 5, 6, 7, 8, 9, 10, 11, 12, 13, 14, 15, 16]) = 16 \<and>
   rsi_value 3 2 = 100 - 100 / (1 + 3 / 2)"
proof -
  have m: "Some (200 / 3) \<in> set (rsi 2 [10, 12, 11, 13])"
    by (simp add: rsi_small)
  from rsi_bounded [THEN conjunct1, rule_format, OF m, of "200 / 3"]
  have b: "(0::real) \<le> 200 / 3 \<and> (200::real) / 3 \<le> 100" by simp
  from rsi_bounded [THEN conjunct2, THEN conjunct2, THEN conjunct1, of 2 3]
  have f: "rsi_value 3 2 = 100 - 100 / (1 + 3 / 2)" by simp
  from rsi_bounded [THEN conjunct2, THEN conjunct2, THEN conjunct2, rule_format,
      of 14 "[1, 2, 3, 4, 5, 6, 7, 8, 9, 10, 11, 12, 13, 14, 15, 16]"]
  have l: "length (rsi 14 [1, 2, 3, 4, 5, 6, 7, 8, 9, 10, 11, 12, 13, 14, 15, 16]) = 16"
    by simp
  from b f l show ?thesis by (simp add: rsi_small rsi_rising)
qed

section \<open>The MACD columns of the two backends\<close>

lemma unpack3_Inr: "unpack3 xs = Inr (a, b, c) \<longleftrightarrow> xs = [a, b, c]"
  by (cases xs rule: unpack3.cases) auto

lemma pandas_ta_macd_labels:
  assumes "indicators_pandas_ta L history = Inr ind"
  shows "\<exists>df a b c. pta_macd L (Close history) 12 26 9 = Inr df \<and> map fst df = [a, b, c] \<and>
    MACD ind = replicate (length (Close history)) (PyStr a) \<and>
    MACD_SIGNAL ind = replicate (length (Close history)) (PyStr b) \<and>
    MACD_HIST ind = replicate (length (Close history)) (PyStr c)"
  using assms
  by (auto simp: indicators_pandas_ta_def bind_exn_Inr unpack3_Inr split: prod.splits)

text \<open>
  C7. With the \<open>pandas_ta\<close> backend the three MACD columns of the frame hold the
  column labels of the frame that \<open>pta.macd\<close> returns, not its numbers: on the series
  \<open>hs_prices\<close>, with a library whose MACD line is 3, histogram 1 and signal 2 at every
  bar, the column \<open>MACD_HIST\<close> holds the label of the signal column and the report
  gives the label of the line for "macd". The \<open>ta\<close> branch stores the three columns
  of the library as they are.
\<close>

theorem pandas_ta_macd_hist_is_a_label:
  "pta_macd (demo_libs (Some Pandas_ta) (Inr (frame_of (map Fin hs_prices))))
     (Close (frame_of (map Fin hs_prices))) 12 26 9 =
     Inr [(''MACD_12_26_9'', const_column 3 (map Fin hs_prices)),
          (''MACDh_12_26_9'', const_column 1 (map Fin hs_prices)),
          (''MACDs_12_26_9'', const_column 2 (map Fin hs_prices))] \<and>
   (\<exists>ind. indicators_pandas_ta (demo_libs (Some Pandas_ta) (Inr (frame_of (map Fin hs_prices))))
       (frame_of (map Fin hs_prices)) = Inr ind \<and>
      MACD ind = replicate 61 (PyStr ''MACD_12_26_9'') \<and>
      MACD_SIGNAL ind = replicate 61 (PyStr ''MACDh_12_26_9'') \<and>
      MACD_HIST ind = replicate 61 (PyStr ''MACDs_12_26_9'')) \<and>
   (\<exists>d. run (demo_libs (Some Pandas_ta) (Inr (frame_of (map Fin hs_prices)))) ''AAPL'' ''1y'' =
       Inr d \<and> map_of d ''macd'' = Some (PyStr ''MACD_12_26_9'')) \<and>
   (\<exists>ind. indicators_ta (demo_libs (Some Ta) (Inr (frame_of (map Fin hs_prices))))
       (frame_of (map Fin hs_prices)) = Inr ind \<and>
      MACD ind = const_column 3 (map Fin hs_prices) \<and>
      MACD_SIGNAL ind = const_column 2 (map Fin hs_prices) \<and>
      MACD_HIST ind = const_column 1 (map Fin hs_prices))"
proof -
  let ?F = "frame_of (map Fin hs_prices)"
  let ?L = "demo_libs (Some Pandas_ta) (Inr ?F)"
  let ?I = "\<lparr>SMA_50 = const_column 100 (map Fin hs_prices),
         SMA_200 = const_column 100 (map Fin hs_prices),
         RSI = const_column 50 (map Fin hs_prices),
         MACD = replicate 61 (PyStr ''MACD_12_26_9''),
         MACD_SIGNAL = replicate 61 (PyStr ''MACDh_12_26_9''),
         MACD_HIST = replicate 61 (PyStr ''MACDs_12_26_9''),
         ATR = const_column 1 (map Fin hs_prices)\<rparr>"
  have m: "pta_macd ?L (Close ?F) 12 26 9 =
     Inr [(''MACD_12_26_9'', const_column 3 (map Fin hs_prices)),
          (''MACDh_12_26_9'', const_column 1 (map Fin hs_prices)),
          (''MACDs_12_26_9'', const_column 2 (map Fin hs_prices))]"
    by (simp add: demo_libs_def frame_of_def)
  have ind: "indicators_pandas_ta ?L ?F = Inr ?I"
    by (simp add: indicators_pandas_ta_def demo_libs_def frame_of_def hs_prices_length)
  have fetch: "yf_history ?L ''AAPL'' ''1y'' = Inr ?F" "ta_backend ?L = Some Pandas_ta"
    by (simp_all add: demo_libs_def)
  have len: "Close ?F \<noteq> []" "\<not> length (Close ?F) < 50"
    using hs_prices_nonempty by (simp_all add: frame_of_def hs_prices_length)
  have "run_try ?L ''AAPL'' ''1y'' = report ?L ''AAPL'' ?F ?I"
    unfolding run_try_def fetch using len by (simp add: ind)
  then have r: "run ?L ''AAPL'' ''1y'' =
    Inr [(''ticker'', PyStr ''AAPL''), (''current_price'', PyFloat (Fin 90)),
         (''sma_50'', PyFloat (Fin 100)), (''sma_200'', PyFloat (Fin 100)),
         (''rsi'', PyFloat (Fin 50)), (''macd'', PyStr ''MACD_12_26_9''),
         (''atr'', PyFloat (Fin 1)),
         (''support_levels'', PyList [PyFloat (Fin 90), PyFloat (Fin 90)]),
         (''resistance_levels'', PyList [PyFloat (Fin 100), PyFloat (Fin 120), PyFloat (Fin 100)]),
         (''identified_patterns'', PyList [PyStr ''Head and Shoulders'', PyStr ''Double Bottom''])]"
    using hs_prices_nonempty
    by (simp add: run_def demo_report current_const_column current_labels)
  have ta: "indicators_ta (demo_libs (Some Ta) (Inr ?F)) ?F =
    Inr \<lparr>SMA_50 = const_column 100 (map Fin hs_prices),
         SMA_200 = const_column 100 (map Fin hs_prices),
         RSI = const_column 50 (map Fin hs_prices),
         MACD = const_column 3 (map Fin hs_prices),
         MACD_SIGNAL = const_column 2 (map Fin hs_prices),
         MACD_HIST = const_column 1 (map Fin hs_prices),
         ATR = const_column 1 (map Fin hs_prices)\<rparr>"
    by (simp add: indicators_ta_def demo_libs_def frame_of_def)
  from m ind r ta show ?thesis by simp
qed

end
